theory Spec2Isabelle
  imports Main "HOL-Library.Multiset"
begin

section \<open>Kothak: resource bring-up, registry and shutdown\<close>

text \<open>
  A shallow embedding of \<^verbatim>\<open>internal/kothak/kothak.go\<close>: the bring-up entry point
  \<^verbatim>\<open>New\<close>, the shutdown entry point \<^verbatim>\<open>CloseAll\<close> and the six registry accessors.

  Conventions of the model.
  \<^item> A Go \<^verbatim>\<open>error\<close> is its message; a nil error is \<open>None\<close>, a nil pointer is \<open>None\<close>.
  \<^item> A pointer to a connected resource (\<^verbatim>\<open>*sqlx.DB\<close>, a provider, a cache client) is an
    address, a natural number: reference equality in Go is equality of addresses here.
  \<^item> The packages the file calls but does not define (\<^verbatim>\<open>sqldb\<close>, \<^verbatim>\<open>redigo\<close>,
    \<^verbatim>\<open>objectstorage\<close>, \<^verbatim>\<open>gcs\<close>, \<^verbatim>\<open>s3\<close>, \<^verbatim>\<open>local\<close> and the two \<^verbatim>\<open>SetDefault\<close> methods) are
    parameters, collected in the record \<open>collaborators\<close>; each is a function of its
    arguments, and every theorem holds for every choice of them. The Unicode tables
    behind \<^verbatim>\<open>strings.ToLower\<close> are one of these parameters.
  \<^item> Every call to a collaborator is recorded as an \<open>event\<close>, so that which calls a run
    makes, and in which order, can be stated.
  \<^item> Tracing spans, debug logging and the \<^verbatim>\<open>context.Context\<close> argument are left out.
\<close>

subsection \<open>Data model\<close>

type_synonym error = string
type_synonym sqlx_DB = nat
type_synonym Redis = nat
type_synonym StorageProvider = nat

text \<open>
  Modelled from the spec: the configuration structs of package \<^verbatim>\<open>kothak\<close>
  (\<^verbatim>\<open>DBConfig\<close>, \<^verbatim>\<open>SQLDBConfig\<close>, the connection configuration, \<^verbatim>\<open>RedisConfig\<close>,
  \<^verbatim>\<open>RedisConnConfig\<close>, \<^verbatim>\<open>ObjectStorageConfig\<close>) are declared in another file of the package, which is not at hand.
  Their fields are the ones \<^verbatim>\<open>New\<close> reads, with the family-wide database defaults the
  spec names. A field name shared by several structs carries the struct as a prefix.
\<close>

record ConnConfig =
  DSN :: string
  MaxRetry :: int
  MaxOpenConnections :: int
  MaxIdleConnections :: int

record SQLDBConfig =
  sqldb_Name :: string
  Driver :: string
  LeaderConnConfig :: ConnConfig
  ReplicaConnConfig :: ConnConfig

record DBConfig =
  default_MaxRetry :: int
  default_MaxOpenConnections :: int
  default_MaxIdleConnections :: int
  SQLDBs :: "SQLDBConfig list"

record RedisConnConfig =
  redis_Name :: string
  Address :: string

record RedisConfig =
  MaxActive :: int
  MaxIdle :: int
  Timeout :: int
  Rds :: "RedisConnConfig list"

record GCSConfig =
  JSONKey :: string

record S3Config =
  ClientID :: string
  ClientSecret :: string
  DisableSSL :: bool
  ForcePathStyle :: bool

record ObjectStorageConfig =
  objstorage_Name :: string
  Provider :: string
  Bucket :: string
  BucketProto :: string
  BucketURL :: string
  Region :: string
  Endpoint :: string
  GCS :: GCSConfig
  S3 :: S3Config

text \<open>\<^verbatim>\<open>type Config struct\<close>, lines 23 to 27.\<close>

record Config =
  cfg_DBConfig :: DBConfig
  cfg_RedisConfig :: RedisConfig
  cfg_ObjectStorageConfig :: "ObjectStorageConfig list"

text \<open>
  Modelled from the spec: \<^verbatim>\<open>sqldb.DB\<close> and \<^verbatim>\<open>objectstorage.Storage\<close> are declared in
  other packages of the repository, which are not at hand. Following the spec, a database
  handle owns a leader pool and a follower pool, the two arguments \<^verbatim>\<open>sqldb.Wrap\<close> is given, and an object-storage handle
  owns the one connected client \<^verbatim>\<open>objectstorage.New\<close> is given.
\<close>

record sqldb_DB =
  leader :: sqlx_DB
  follower :: sqlx_DB

record Storage =
  storage_provider :: StorageProvider

text \<open>
  \<^verbatim>\<open>logger.Logger\<close> is an interface declared in another package, not at hand, and the value
  behind it is an argument of \<^verbatim>\<open>New\<close>. Of its methods the registry calls \<^verbatim>\<open>Fatalf\<close> only
  (debug logging is left out), so a logger is what its \<^verbatim>\<open>Fatalf\<close> does with a
  message: end the process, or write it and return to the caller.
\<close>

datatype fatal = EndsProcess | ReturnsToCaller

record Logger =
  Fatalf :: "string \<Rightarrow> fatal"

text \<open>\<^verbatim>\<open>type Kothak struct\<close>, lines 30 to 35.\<close>

record Kothak =
  objStorages :: "string \<rightharpoonup> Storage"
  dbs :: "string \<rightharpoonup> sqldb_DB"
  rds :: "string \<rightharpoonup> Redis"
  logger :: Logger

subsection \<open>Collaborators\<close>

record ConnectOptions =
  Retry :: int
  opt_MaxOpenConnections :: int
  opt_MaxIdleConnections :: int

record redigo_Config =
  rc_MaxActive :: int
  rc_MaxIdle :: int
  rc_Timeout :: int

record gcs_Config =
  gcs_handle :: nat
  gcs_Bucket :: string
  gcs_BucketProto :: string
  gcs_BucketURL :: string

record s3_Config =
  s3_handle :: nat
  s3_Bucket :: string
  s3_BucketProto :: string
  s3_BucketURL :: string
  s3_Region :: string
  s3_Endpoint :: string
  s3_DisableSSL :: bool
  s3_ForcePathStyle :: bool

record collaborators =
  DBConfig_SetDefault :: "DBConfig \<Rightarrow> error + DBConfig"
  ConnConfig_SetDefault :: "ConnConfig \<Rightarrow> DBConfig \<Rightarrow> error + ConnConfig"
  sqldb_Connect :: "string \<Rightarrow> string \<Rightarrow> ConnectOptions \<Rightarrow> error + sqlx_DB"
  sqldb_Wrap :: "sqlx_DB \<Rightarrow> sqlx_DB \<Rightarrow> error option"
  redigo_New :: "string \<Rightarrow> redigo_Config \<Rightarrow> error + Redis"
  local_New :: "string \<Rightarrow> bool \<Rightarrow> error + StorageProvider"
  gcs_CredentialsFromFile :: "string \<Rightarrow> error + nat"
  gcs_NewConfig :: "nat \<Rightarrow> error + gcs_Config"
  gcs_New :: "gcs_Config \<Rightarrow> error + StorageProvider"
  s3_CredentialsFromClient :: "string \<Rightarrow> string \<Rightarrow> string \<Rightarrow> error + nat"
  s3_NewConfig :: "nat \<Rightarrow> error + s3_Config"
  s3_New :: "s3_Config \<Rightarrow> error + StorageProvider"
  unicode_ToLower :: "string \<Rightarrow> string"

datatype event =
    EvDBConfigSetDefault DBConfig
  | EvConnConfigSetDefault ConnConfig DBConfig
  | EvConnect string string ConnectOptions
  | EvWrap sqlx_DB sqlx_DB
  | EvRedigoNew string redigo_Config
  | EvLocalNew string bool
  | EvGcsCredentialsFromFile string
  | EvGcsNewConfig nat
  | EvGcsNew gcs_Config
  | EvS3CredentialsFromClient string string string
  | EvS3NewConfig nat
  | EvS3New s3_Config
  | EvObjectStorageNew StorageProvider

subsection \<open>Provider selection\<close>

text \<open>
  \<^verbatim>\<open>strings.ToLower\<close>, as the standard library has it. A string is a sequence of bytes.
  If every byte is below 128 (\<^verbatim>\<open>utf8.RuneSelf\<close>), each ASCII capital becomes the small
  letter and every other byte stays. If some byte is 128 or more, the result is
  \<^verbatim>\<open>strings.Map(unicode.ToLower, s)\<close>: the string is decoded as UTF-8 and every code point
  is lowered by the Unicode tables (so the two bytes of U+0130 become the one byte of
  \<^verbatim>\<open>i\<close>). That second function is the collaborator \<open>unicode_ToLower\<close>; nothing is
  assumed of it.
\<close>

definition toLower_byte :: "char \<Rightarrow> char" where
  "toLower_byte c =
     (let n = (of_char c :: nat) in if 65 \<le> n \<and> n \<le> 90 then char_of (n + 32) else c)"

definition is_ASCII :: "string \<Rightarrow> bool" where
  "is_ASCII s = list_all (\<lambda>c. (of_char c :: nat) < 128) s"

definition ToLower :: "collaborators \<Rightarrow> string \<Rightarrow> string" where
  "ToLower env s = (if is_ASCII s then map toLower_byte s else unicode_ToLower env s)"

text \<open>
  Modelled from the spec: the provider identifiers \<^verbatim>\<open>objectstorage.StorageLocal\<close>,
  \<^verbatim>\<open>StorageGCS\<close>, \<^verbatim>\<open>StorageS3\<close>, \<^verbatim>\<open>StorageDO\<close> and \<^verbatim>\<open>StorageMinio\<close> are constants declared
  in package \<^verbatim>\<open>objectstorage\<close>, which is not at hand; the spec lists them as local, gcs, s3, do, minio.
\<close>

definition StorageLocal :: string where "StorageLocal = ''local''"
definition StorageGCS :: string where "StorageGCS = ''gcs''"
definition StorageS3 :: string where "StorageS3 = ''s3''"
definition StorageDO :: string where "StorageDO = ''do''"
definition StorageMinio :: string where "StorageMinio = ''minio''"

definition errProviderNotFound :: error where
  "errProviderNotFound = ''kothak: object storage provider not found''"

subsection \<open>The bring-up units\<close>

text \<open>
  What one goroutine leaves behind: the handle it installs in the registry under the
  configured name, or the error it appends to \<^verbatim>\<open>errs\<close>. Every path of every goroutine
  ends in exactly one of the two.
\<close>

datatype outcome =
    InstallObjStorage string Storage
  | InstallRedis string Redis
  | InstallDB string sqldb_DB
  | Failed error

text \<open>The goroutine of lines 63 to 146, with \<open>lowered\<close> the value the switch inspects.\<close>

definition objectStorageSwitch ::
  "collaborators \<Rightarrow> string \<Rightarrow> ObjectStorageConfig \<Rightarrow> event list \<times> outcome" where
  "objectStorageSwitch env lowered config =
     (if lowered = StorageLocal then
        (case local_New env (''./'' @ Bucket config) False of
           Inl err \<Rightarrow> ([EvLocalNew (''./'' @ Bucket config) False], Failed err)
         | Inr provider \<Rightarrow>
             ([EvLocalNew (''./'' @ Bucket config) False, EvObjectStorageNew provider],
              InstallObjStorage (objstorage_Name config) \<lparr>storage_provider = provider\<rparr>))
      else if lowered = StorageGCS then
        (case gcs_CredentialsFromFile env (JSONKey (GCS config)) of
           Inl err \<Rightarrow> ([EvGcsCredentialsFromFile (JSONKey (GCS config))], Failed err)
         | Inr gcsCreds \<Rightarrow>
            (case gcs_NewConfig env gcsCreds of
               Inl err \<Rightarrow>
                 ([EvGcsCredentialsFromFile (JSONKey (GCS config)), EvGcsNewConfig gcsCreds],
                  Failed err)
             | Inr gcsConfig0 \<Rightarrow>
                 (let gcsConfig = gcsConfig0
                        \<lparr>gcs_Bucket := Bucket config,
                         gcs_BucketProto := BucketProto config,
                         gcs_BucketURL := BucketURL config\<rparr>;
                      evs = [EvGcsCredentialsFromFile (JSONKey (GCS config)),
                             EvGcsNewConfig gcsCreds, EvGcsNew gcsConfig]
                  in case gcs_New env gcsConfig of
                       Inl err \<Rightarrow> (evs, Failed err)
                     | Inr provider \<Rightarrow>
                         (evs @ [EvObjectStorageNew provider],
                          InstallObjStorage (objstorage_Name config)
                            \<lparr>storage_provider = provider\<rparr>))))
      else if lowered = StorageS3 \<or> lowered = StorageDO \<or> lowered = StorageMinio then
        (case s3_CredentialsFromClient env (ClientID (S3 config)) (ClientSecret (S3 config)) '''' of
           Inl err \<Rightarrow>
             ([EvS3CredentialsFromClient (ClientID (S3 config)) (ClientSecret (S3 config)) ''''],
              Failed err)
         | Inr s3Creds \<Rightarrow>
            (case s3_NewConfig env s3Creds of
               Inl err \<Rightarrow>
                 ([EvS3CredentialsFromClient (ClientID (S3 config)) (ClientSecret (S3 config)) '''',
                   EvS3NewConfig s3Creds],
                  Failed err)
             | Inr s3Config0 \<Rightarrow>
                 (let s3Config = s3Config0
                        \<lparr>s3_Bucket := Bucket config,
                         s3_BucketProto := BucketProto config,
                         s3_BucketURL := BucketURL config,
                         s3_Region := Region config,
                         s3_Endpoint := Endpoint config,
                         s3_DisableSSL := DisableSSL (S3 config),
                         s3_ForcePathStyle := ForcePathStyle (S3 config)\<rparr>;
                      evs = [EvS3CredentialsFromClient (ClientID (S3 config))
                               (ClientSecret (S3 config)) '''',
                             EvS3NewConfig s3Creds, EvS3New s3Config]
                  in case s3_New env s3Config of
                       Inl err \<Rightarrow> (evs, Failed err)
                     | Inr provider \<Rightarrow>
                         (evs @ [EvObjectStorageNew provider],
                          InstallObjStorage (objstorage_Name config)
                            \<lparr>storage_provider = provider\<rparr>))))
      else ([], Failed errProviderNotFound))"

definition objectStorageUnit ::
  "collaborators \<Rightarrow> ObjectStorageConfig \<Rightarrow> event list \<times> outcome" where
  "objectStorageUnit env config =
     objectStorageSwitch env (ToLower env (Provider config)) config"

text \<open>The goroutine of lines 152 to 174.\<close>

definition redisUnit ::
  "collaborators \<Rightarrow> RedisConfig \<Rightarrow> RedisConnConfig \<Rightarrow> event list \<times> outcome" where
  "redisUnit env redisConfig redisconfig =
     (let conf = \<lparr>rc_MaxActive = MaxActive redisConfig,
                  rc_MaxIdle = MaxIdle redisConfig,
                  rc_Timeout = Timeout redisConfig\<rparr>
      in case redigo_New env (Address redisconfig) conf of
           Inl err \<Rightarrow> ([EvRedigoNew (Address redisconfig) conf], Failed err)
         | Inr r \<Rightarrow>
             ([EvRedigoNew (Address redisconfig) conf],
              InstallRedis (redis_Name redisconfig) r))"

text \<open>
  The goroutine of lines 180 to 237. \<open>connectOptions\<close> is the \<^verbatim>\<open>sqldb.ConnectOptions\<close>
  built from a connection configuration (lines 203 to 207 and 217 to 221). \<open>wrapStep\<close>
  is the end of the goroutine, lines 228 to 236, reached with the follower equal to the
  leader or with a follower of its own: on a failing \<^verbatim>\<open>sqldb.Wrap\<close> the error is the
  outcome, otherwise the handle over the two pools is. The test
  \<^verbatim>\<open>dbconfig.Driver == ""\<close> of line 193 has an empty body and no else branch: both ways
  add no call (\<open>ev0\<close>) and continue with the leader's defaulting.
\<close>

definition connectOptions :: "ConnConfig \<Rightarrow> ConnectOptions" where
  "connectOptions c =
     \<lparr>Retry = MaxRetry c,
      opt_MaxOpenConnections = MaxOpenConnections c,
      opt_MaxIdleConnections = MaxIdleConnections c\<rparr>"

definition wrapStep ::
  "collaborators \<Rightarrow> string \<Rightarrow> event list \<Rightarrow> sqlx_DB \<Rightarrow> sqlx_DB \<Rightarrow> event list \<times> outcome" where
  "wrapStep env name evs leaderDB followerDB =
     (case sqldb_Wrap env leaderDB followerDB of
        Some err \<Rightarrow> (evs @ [EvWrap leaderDB followerDB], Failed err)
      | None \<Rightarrow>
          (evs @ [EvWrap leaderDB followerDB],
           InstallDB name \<lparr>leader = leaderDB, follower = followerDB\<rparr>))"

definition sqldbUnit ::
  "collaborators \<Rightarrow> DBConfig \<Rightarrow> SQLDBConfig \<Rightarrow> event list \<times> outcome" where
  "sqldbUnit env dbConfig dbconfig =
     (let ev0 = (if Driver dbconfig = '''' then [] else []) in
      case ConnConfig_SetDefault env (LeaderConnConfig dbconfig) dbConfig of
        Inl err \<Rightarrow>
          (ev0 @ [EvConnConfigSetDefault (LeaderConnConfig dbconfig) dbConfig], Failed err)
      | Inr leaderConf \<Rightarrow>
          (let evs1 = ev0 @ [EvConnConfigSetDefault (LeaderConnConfig dbconfig) dbConfig,
                       EvConnect (Driver dbconfig) (DSN leaderConf) (connectOptions leaderConf)]
           in case sqldb_Connect env (Driver dbconfig) (DSN leaderConf)
                     (connectOptions leaderConf) of
                Inl err \<Rightarrow> (evs1, Failed err)
              | Inr leaderDB \<Rightarrow>
                  (if DSN (ReplicaConnConfig dbconfig) \<noteq> '''' then
                     (let evs2 = evs1 @
                            [EvConnect (Driver dbconfig) (DSN (ReplicaConnConfig dbconfig))
                               (connectOptions (ReplicaConnConfig dbconfig))]
                      in case sqldb_Connect env (Driver dbconfig)
                                (DSN (ReplicaConnConfig dbconfig))
                                (connectOptions (ReplicaConnConfig dbconfig)) of
                           Inl err \<Rightarrow> (evs2, Failed err)
                         | Inr followerDB \<Rightarrow>
                             wrapStep env (sqldb_Name dbconfig) evs2 leaderDB followerDB)
                   else wrapStep env (sqldb_Name dbconfig) evs1 leaderDB leaderDB)))"

subsection \<open>New: fan-out, join and aggregation\<close>

text \<open>
  The state the goroutines share: the registry under construction and the slice
  \<^verbatim>\<open>errs\<close> (lines 43 to 52).
\<close>

record state =
  st_kothak :: Kothak
  st_errs :: "error list"

text \<open>
  The one write a goroutine makes to the shared state: \<^verbatim>\<open>errs = append(errs, err)\<close> on a
  failing path, the map store of line 145, 173 or 236 on the successful one.
\<close>

fun commit :: "outcome \<Rightarrow> state \<Rightarrow> state" where
  "commit (InstallObjStorage name h) s =
     s\<lparr>st_kothak := (st_kothak s)\<lparr>objStorages := (objStorages (st_kothak s))(name \<mapsto> h)\<rparr>\<rparr>"
| "commit (InstallRedis name h) s =
     s\<lparr>st_kothak := (st_kothak s)\<lparr>rds := (rds (st_kothak s))(name \<mapsto> h)\<rparr>\<rparr>"
| "commit (InstallDB name h) s =
     s\<lparr>st_kothak := (st_kothak s)\<lparr>dbs := (dbs (st_kothak s))(name \<mapsto> h)\<rparr>\<rparr>"
| "commit (Failed err) s = s\<lparr>st_errs := st_errs s @ [err]\<rparr>"

text \<open>
  The goroutines in the order the three loops start them: object storage (line 61),
  cache (line 150), database (line 178).
\<close>

datatype unit_of_work =
    ObjStorageUnit ObjectStorageConfig
  | RedisUnit RedisConnConfig
  | SQLDBUnit SQLDBConfig

definition units :: "Config \<Rightarrow> unit_of_work list" where
  "units kothakConfig =
     map ObjStorageUnit (cfg_ObjectStorageConfig kothakConfig) @
     map RedisUnit (Rds (cfg_RedisConfig kothakConfig)) @
     map SQLDBUnit (SQLDBs (cfg_DBConfig kothakConfig))"

fun runUnit :: "collaborators \<Rightarrow> Config \<Rightarrow> unit_of_work \<Rightarrow> event list \<times> outcome" where
  "runUnit env kothakConfig (ObjStorageUnit c) = objectStorageUnit env c"
| "runUnit env kothakConfig (RedisUnit c) = redisUnit env (cfg_RedisConfig kothakConfig) c"
| "runUnit env kothakConfig (SQLDBUnit c) = sqldbUnit env (cfg_DBConfig kothakConfig) c"

text \<open>
  The goroutines run concurrently and \<^verbatim>\<open>group.Wait()\<close> returns once all are done. What
  the caller sees depends only on the order in which they make their write to the shared
  state; that order is the parameter \<open>sched\<close>, a list of positions in \<open>units\<close>.
  \<open>is_schedule\<close> says that every goroutine is in it once. Each write is taken as one
  step here; that the source does not make it so is the subject of \<open>New_data_race\<close>
  below.
\<close>

definition is_schedule :: "nat list \<Rightarrow> nat \<Rightarrow> bool" where
  "is_schedule sched n = (mset sched = mset [0..<n])"

definition scheduled :: "nat list \<Rightarrow> 'a list \<Rightarrow> 'a list" where
  "scheduled sched xs = map (\<lambda>i. xs ! i) (filter (\<lambda>i. i < length xs) sched)"

definition initial :: "Logger \<Rightarrow> state" where
  "initial lg =
     \<lparr>st_kothak = \<lparr>objStorages = Map.empty, dbs = Map.empty, rds = Map.empty, logger = lg\<rparr>,
      st_errs = []\<rparr>"

definition commits :: "outcome list \<Rightarrow> state \<Rightarrow> state" where
  "commits rs s = foldl (\<lambda>s r. commit r s) s rs"

definition outcomes :: "collaborators \<Rightarrow> Config \<Rightarrow> nat list \<Rightarrow> outcome list" where
  "outcomes env kothakConfig sched =
     scheduled sched (map (\<lambda>u. snd (runUnit env kothakConfig u)) (units kothakConfig))"

definition bringUp :: "collaborators \<Rightarrow> Config \<Rightarrow> Logger \<Rightarrow> nat list \<Rightarrow> state" where
  "bringUp env kothakConfig lg sched = commits (outcomes env kothakConfig sched) (initial lg)"

definition bringUpEvents :: "collaborators \<Rightarrow> Config \<Rightarrow> nat list \<Rightarrow> event list" where
  "bringUpEvents env kothakConfig sched =
     concat (scheduled sched
       (map (\<lambda>u. fst (runUnit env kothakConfig u)) (units kothakConfig)))"

text \<open>Lines 242 to 246: \<^verbatim>\<open>if len(errs) > 0 { err = errs[0] }\<close>.\<close>

definition firstError :: "error list \<Rightarrow> error option" where
  "firstError es = (case es of [] \<Rightarrow> None | e # _ \<Rightarrow> Some e)"

text \<open>
  \<^verbatim>\<open>New\<close>, lines 38 to 249. \<open>defaulted\<close> is \<^verbatim>\<open>kothakConfig\<close> after line 56, the
  configuration every goroutine reads.
\<close>

definition defaulted :: "Config \<Rightarrow> DBConfig \<Rightarrow> Config" where
  "defaulted kothakConfig dbConfig = kothakConfig\<lparr>cfg_DBConfig := dbConfig\<rparr>"

definition New ::
  "collaborators \<Rightarrow> Config \<Rightarrow> Logger \<Rightarrow> nat list \<Rightarrow> Kothak option \<times> error option" where
  "New env kothakConfig lg sched =
     (case DBConfig_SetDefault env (cfg_DBConfig kothakConfig) of
        Inl err \<Rightarrow> (None, Some err)
      | Inr dbConfig \<Rightarrow>
          (let s = bringUp env (defaulted kothakConfig dbConfig) lg sched
           in (Some (st_kothak s), firstError (st_errs s))))"

text \<open>The calls to collaborators one run of \<^verbatim>\<open>New\<close> makes, goroutine after goroutine.\<close>

definition NewEvents :: "collaborators \<Rightarrow> Config \<Rightarrow> nat list \<Rightarrow> event list" where
  "NewEvents env kothakConfig sched =
     EvDBConfigSetDefault (cfg_DBConfig kothakConfig) #
     (case DBConfig_SetDefault env (cfg_DBConfig kothakConfig) of
        Inl err \<Rightarrow> []
      | Inr dbConfig \<Rightarrow> bringUpEvents env (defaulted kothakConfig dbConfig) sched)"

text \<open>The slice \<^verbatim>\<open>errs\<close> when \<^verbatim>\<open>group.Wait()\<close> returns.\<close>

definition NewErrs :: "collaborators \<Rightarrow> Config \<Rightarrow> Logger \<Rightarrow> nat list \<Rightarrow> error list" where
  "NewErrs env kothakConfig lg sched =
     (case DBConfig_SetDefault env (cfg_DBConfig kothakConfig) of
        Inl err \<Rightarrow> []
      | Inr dbConfig \<Rightarrow> st_errs (bringUp env (defaulted kothakConfig dbConfig) lg sched))"

subsection \<open>Accesses to the shared state\<close>

text \<open>
  The shared variables the goroutines touch, and how. \<^verbatim>\<open>New\<close> takes no lock and uses
  no channel: the only synchronisation is the wait group, which orders the end of every
  goroutine before the return of \<^verbatim>\<open>group.Wait()\<close> and nothing between two goroutines.
  So two accesses of two different goroutines to one variable, one of them a write, are
  a data race of the Go memory model.
\<close>

datatype location = LocErrs | LocObjStorages | LocDbs | LocRds

datatype access = Read location | Write location

fun accesses :: "outcome \<Rightarrow> access list" where
  "accesses (InstallObjStorage name h) = [Write LocObjStorages]"
| "accesses (InstallRedis name h) = [Write LocRds]"
| "accesses (InstallDB name h) = [Write LocDbs]"
| "accesses (Failed err) = [Read LocErrs, Write LocErrs]"

fun location_of :: "access \<Rightarrow> location" where
  "location_of (Read l) = l"
| "location_of (Write l) = l"

fun is_write :: "access \<Rightarrow> bool" where
  "is_write (Read l) = False"
| "is_write (Write l) = True"

definition conflict :: "access \<Rightarrow> access \<Rightarrow> bool" where
  "conflict a b = (location_of a = location_of b \<and> (is_write a \<or> is_write b))"

definition racing_pairs :: "outcome list \<Rightarrow> (nat \<times> nat) list" where
  "racing_pairs rs =
     concat (map (\<lambda>i. concat (map (\<lambda>j.
       if i < j \<and> list_ex (\<lambda>a. list_ex (conflict a) (accesses (rs ! j))) (accesses (rs ! i))
       then [(i, j)] else []) [0..<length rs])) [0..<length rs])"

definition New_data_race :: "collaborators \<Rightarrow> Config \<Rightarrow> bool" where
  "New_data_race env kothakConfig =
     (case DBConfig_SetDefault env (cfg_DBConfig kothakConfig) of
        Inl err \<Rightarrow> False
      | Inr dbConfig \<Rightarrow>
          racing_pairs (map (\<lambda>u. snd (runUnit env (defaulted kothakConfig dbConfig) u))
            (units (defaulted kothakConfig dbConfig))) \<noteq> [])"

subsection \<open>CloseAll\<close>

text \<open>
  The three \<^verbatim>\<open>Close\<close> methods are collaborators; each returns an error or nil, which
  \<^verbatim>\<open>CloseAll\<close> drops. A Go \<^verbatim>\<open>range\<close> over a map visits every entry once, in an order
  the language leaves open: the order is the parameter \<open>iteration\<close>, and \<open>enumerates\<close>
  says that a list of keys is such an order for a map.
\<close>

record closers =
  Storage_Close :: "Storage \<Rightarrow> error option"
  DB_Close :: "sqldb_DB \<Rightarrow> error option"
  Redis_Close :: "Redis \<Rightarrow> error option"

record iteration =
  objStorages_order :: "string list"
  dbs_order :: "string list"
  rds_order :: "string list"

datatype close_event =
    CloseObjStorage Storage "error option"
  | CloseDB sqldb_DB "error option"
  | CloseRedis Redis "error option"

definition enumerates :: "'k list \<Rightarrow> ('k \<rightharpoonup> 'v) \<Rightarrow> bool" where
  "enumerates ks m = (distinct ks \<and> set ks = dom m)"

definition rangeMap :: "('k \<rightharpoonup> 'v) \<Rightarrow> 'k list \<Rightarrow> 'v list" where
  "rangeMap m ks = List.map_filter m ks"

text \<open>
  \<^verbatim>\<open>CloseAll\<close>, lines 253 to 266: the calls it makes with what each returned, the error
  it returns, and the registry after it.
\<close>

definition CloseAll ::
  "closers \<Rightarrow> iteration \<Rightarrow> Kothak \<Rightarrow> close_event list \<times> error option \<times> Kothak" where
  "CloseAll cl it k =
     (map (\<lambda>objStorage. CloseObjStorage objStorage (Storage_Close cl objStorage))
        (rangeMap (objStorages k) (objStorages_order it)) @
      map (\<lambda>sqldb. CloseDB sqldb (DB_Close cl sqldb))
        (rangeMap (dbs k) (dbs_order it)) @
      map (\<lambda>redis. CloseRedis redis (Redis_Close cl redis))
        (rangeMap (rds k) (rds_order it)),
      None, k)"

definition is_iteration :: "iteration \<Rightarrow> Kothak \<Rightarrow> bool" where
  "is_iteration it k =
     (enumerates (objStorages_order it) (objStorages k) \<and>
      enumerates (dbs_order it) (dbs k) \<and>
      enumerates (rds_order it) (rds k))"

subsection \<open>Accessors\<close>

text \<open>
  A fallible accessor returns the pair of Go, handle and error, and the registry after
  the call. \<^verbatim>\<open>fmt.Errorf\<close> with one \<^verbatim>\<open>%s\<close> is concatenation.
\<close>

definition GetSQLDB :: "Kothak \<Rightarrow> string \<Rightarrow> (sqldb_DB option \<times> error option) \<times> Kothak" where
  "GetSQLDB k dbname =
     (case dbs k dbname of
        None \<Rightarrow>
          ((None, Some (''kothak: sql database with name '' @ dbname @ '' does not exists'')), k)
      | Some i \<Rightarrow> ((Some i, None), k))"

definition GetRedis :: "Kothak \<Rightarrow> string \<Rightarrow> (Redis option \<times> error option) \<times> Kothak" where
  "GetRedis k redisname =
     (case rds k redisname of
        None \<Rightarrow>
          ((None, Some (''kothak: redis with name '' @ redisname @ '' does not exists'')), k)
      | Some i \<Rightarrow> ((Some i, None), k))"

definition GetObjectStorage ::
  "Kothak \<Rightarrow> string \<Rightarrow> (Storage option \<times> error option) \<times> Kothak" where
  "GetObjectStorage k objStorageName =
     (case objStorages k objStorageName of
        None \<Rightarrow>
          ((None, Some (''kothak: object storage with name '' @ objStorageName @
                        '' does not exists'')), k)
      | Some i \<Rightarrow> ((Some i, None), k))"

text \<open>
  A fail-fast accessor: on a miss it calls \<^verbatim>\<open>k.logger.Fatalf\<close> with the message. If that
  call ends the process, so does the accessor; if it returns, the accessor goes on to
  \<^verbatim>\<open>return i\<close> with \<^verbatim>\<open>i\<close> the zero value, a nil handle (\<open>None\<close>).
\<close>

datatype 'a must = ProcessExits string | Returns "'a option"

definition MustGetSQLDB :: "Kothak \<Rightarrow> string \<Rightarrow> sqldb_DB must \<times> Kothak" where
  "MustGetSQLDB k dbname =
     (case dbs k dbname of
        None \<Rightarrow>
          (case Fatalf (logger k)
                  (''kothak: sql database with name '' @ dbname @ '' does not exists'') of
             EndsProcess \<Rightarrow>
               (ProcessExits (''kothak: sql database with name '' @ dbname @
                              '' does not exists''), k)
           | ReturnsToCaller \<Rightarrow> (Returns None, k))
      | Some i \<Rightarrow> (Returns (Some i), k))"

definition MustGetRedis :: "Kothak \<Rightarrow> string \<Rightarrow> Redis must \<times> Kothak" where
  "MustGetRedis k redisname =
     (case rds k redisname of
        None \<Rightarrow>
          (case Fatalf (logger k)
                  (''Kothak: redis with name '' @ redisname @ '' does not exists'') of
             EndsProcess \<Rightarrow>
               (ProcessExits (''Kothak: redis with name '' @ redisname @ '' does not exists''), k)
           | ReturnsToCaller \<Rightarrow> (Returns None, k))
      | Some i \<Rightarrow> (Returns (Some i), k))"

definition MustGetObjectStorage :: "Kothak \<Rightarrow> string \<Rightarrow> Storage must \<times> Kothak" where
  "MustGetObjectStorage k objStorageName =
     (case objStorages k objStorageName of
        None \<Rightarrow>
          (case Fatalf (logger k)
                  (''kothak: object storage with name '' @ objStorageName @
                   '' does not exists'') of
             EndsProcess \<Rightarrow>
               (ProcessExits (''kothak: object storage with name '' @ objStorageName @
                              '' does not exists''), k)
           | ReturnsToCaller \<Rightarrow> (Returns None, k))
      | Some i \<Rightarrow> (Returns (Some i), k))"

subsection \<open>The registry by family and name\<close>

text \<open>
  The three maps of the registry read as one lookup, by family and name, and the
  vocabulary to speak of the three kinds of goroutine at once: the key a goroutine is
  configured with, the entry a successful outcome writes, the error a failed one appends.
\<close>

datatype family = ObjectStorageFamily | CacheFamily | DatabaseFamily

datatype handle = ObjStorageHandle Storage | RedisHandle Redis | DBHandle sqldb_DB

fun get :: "Kothak \<Rightarrow> family \<times> string \<Rightarrow> handle option" where
  "get k (ObjectStorageFamily, name) = map_option ObjStorageHandle (objStorages k name)"
| "get k (CacheFamily, name) = map_option RedisHandle (rds k name)"
| "get k (DatabaseFamily, name) = map_option DBHandle (dbs k name)"

fun unit_key :: "unit_of_work \<Rightarrow> family \<times> string" where
  "unit_key (ObjStorageUnit c) = (ObjectStorageFamily, objstorage_Name c)"
| "unit_key (RedisUnit c) = (CacheFamily, redis_Name c)"
| "unit_key (SQLDBUnit c) = (DatabaseFamily, sqldb_Name c)"

fun installs :: "outcome \<Rightarrow> ((family \<times> string) \<times> handle) list" where
  "installs (InstallObjStorage name h) = [((ObjectStorageFamily, name), ObjStorageHandle h)]"
| "installs (InstallRedis name h) = [((CacheFamily, name), RedisHandle h)]"
| "installs (InstallDB name h) = [((DatabaseFamily, name), DBHandle h)]"
| "installs (Failed err) = []"

fun failures :: "outcome \<Rightarrow> error list" where
  "failures (Failed err) = [err]"
| "failures (InstallObjStorage name h) = []"
| "failures (InstallRedis name h) = []"
| "failures (InstallDB name h) = []"

definition outcome_of :: "collaborators \<Rightarrow> Config \<Rightarrow> unit_of_work \<Rightarrow> outcome" where
  "outcome_of env kothakConfig u = snd (runUnit env kothakConfig u)"

definition handle_of :: "collaborators \<Rightarrow> Config \<Rightarrow> unit_of_work \<Rightarrow> handle option" where
  "handle_of env kothakConfig u =
     (case installs (outcome_of env kothakConfig u) of
        [] \<Rightarrow> None
      | (key, h) # _ \<Rightarrow> Some h)"


fun is_DBConfigSetDefault :: "event \<Rightarrow> bool" where
  "is_DBConfigSetDefault (EvDBConfigSetDefault c) = True"
| "is_DBConfigSetDefault e = False"

fun is_ConnConfigSetDefault :: "event \<Rightarrow> bool" where
  "is_ConnConfigSetDefault (EvConnConfigSetDefault c d) = True"
| "is_ConnConfigSetDefault e = False"

fun is_Connect :: "event \<Rightarrow> bool" where
  "is_Connect (EvConnect driver dsn opts) = True"
| "is_Connect e = False"

subsection \<open>Concrete configurations and collaborators\<close>

text \<open>
  A lowering of strings that are not ASCII, for the examples: the two bytes of U+0130
  (196, 176) become \<^verbatim>\<open>i\<close>, an ASCII capital becomes the small letter, every other byte
  stays.
\<close>

fun lower_dotted_I :: "string \<Rightarrow> string" where
  "lower_dotted_I (c # d # cs) =
     (if (of_char c :: nat) = 196 \<and> (of_char d :: nat) = 176
      then CHR ''i'' # lower_dotted_I cs
      else toLower_byte c # lower_dotted_I (d # cs))"
| "lower_dotted_I [c] = [toLower_byte c]"
| "lower_dotted_I [] = []"


text \<open>
  Collaborators that always succeed: defaulting leaves a configuration as it is, and
  the address of a connected resource is the length of the string it was reached by.
\<close>

definition env_ok :: collaborators where
  "env_ok =
     \<lparr>DBConfig_SetDefault = Inr,
      ConnConfig_SetDefault = (\<lambda>c d. Inr c),
      sqldb_Connect = (\<lambda>driver dsn opts. Inr (length dsn)),
      sqldb_Wrap = (\<lambda>l f. None),
      redigo_New = (\<lambda>address conf. Inr (length address)),
      local_New = (\<lambda>path deleteOnClose. Inr (length path)),
      gcs_CredentialsFromFile = (\<lambda>path. Inr (length path)),
      gcs_NewConfig = (\<lambda>creds.
        Inr \<lparr>gcs_handle = creds, gcs_Bucket = [], gcs_BucketProto = [],
             gcs_BucketURL = []\<rparr>),
      gcs_New = (\<lambda>c. Inr (length (gcs_Bucket c))),
      s3_CredentialsFromClient = (\<lambda>clientID secret token. Inr (length clientID)),
      s3_NewConfig = (\<lambda>creds.
        Inr \<lparr>s3_handle = creds, s3_Bucket = [], s3_BucketProto = [], s3_BucketURL = [],
             s3_Region = [], s3_Endpoint = [], s3_DisableSSL = False,
             s3_ForcePathStyle = False\<rparr>),
      s3_New = (\<lambda>c. Inr (length (s3_Bucket c))),
      unicode_ToLower = lower_dotted_I\<rparr>"

text \<open>A logger whose \<^verbatim>\<open>Fatalf\<close> ends the process, as that of the standard library does.\<close>

definition stdLogger :: Logger where
  "stdLogger = \<lparr>Fatalf = (\<lambda>message. EndsProcess)\<rparr>"

text \<open>The same, with one collaborator failing.\<close>

definition env_bad_defaults :: collaborators where
  "env_bad_defaults = env_ok\<lparr>DBConfig_SetDefault := (\<lambda>c. Inl ''conflicting defaults'')\<rparr>"

definition env_bad_leader_defaults :: collaborators where
  "env_bad_leader_defaults =
     env_ok\<lparr>ConnConfig_SetDefault := (\<lambda>c d. Inl ''leader defaults'')\<rparr>"

definition env_cache_down :: collaborators where
  "env_cache_down = env_ok\<lparr>redigo_New := (\<lambda>address conf. Inl ''cache unreachable'')\<rparr>"

definition env_db_down :: collaborators where
  "env_db_down = env_ok\<lparr>sqldb_Connect := (\<lambda>driver dsn opts. Inl ''unknown driver'')\<rparr>"

definition conn :: "string \<Rightarrow> ConnConfig" where
  "conn dsn = \<lparr>DSN = dsn, MaxRetry = 3, MaxOpenConnections = 10, MaxIdleConnections = 2\<rparr>"


text \<open>A database with an empty driver and no replica, and one with a replica.\<close>

definition db_main :: SQLDBConfig where
  "db_main =
     \<lparr>sqldb_Name = ''main'', Driver = [], LeaderConnConfig = conn ''leader-dsn'',
      ReplicaConnConfig = conn []\<rparr>"

definition db_replicated :: SQLDBConfig where
  "db_replicated =
     \<lparr>sqldb_Name = ''orders'', Driver = ''postgres'', LeaderConnConfig = conn ''leader'',
      ReplicaConnConfig = conn ''replica-dsn''\<rparr>"


text \<open>One cache and the database with the empty driver.\<close>

definition cfg_cache_and_db :: Config where
  "cfg_cache_and_db =
     \<lparr>cfg_DBConfig =
        \<lparr>default_MaxRetry = 1, default_MaxOpenConnections = 5,
         default_MaxIdleConnections = 1, SQLDBs = [db_main]\<rparr>,
      cfg_RedisConfig =
        \<lparr>MaxActive = 8, MaxIdle = 4, Timeout = 30,
         Rds = [\<lparr>redis_Name = ''sessions'', Address = ''localhost:6379''\<rparr>]\<rparr>,
      cfg_ObjectStorageConfig = []\<rparr>"

text \<open>Two caches and nothing else.\<close>

definition cfg_two_caches :: Config where
  "cfg_two_caches =
     \<lparr>cfg_DBConfig =
        \<lparr>default_MaxRetry = 1, default_MaxOpenConnections = 5,
         default_MaxIdleConnections = 1, SQLDBs = []\<rparr>,
      cfg_RedisConfig =
        \<lparr>MaxActive = 8, MaxIdle = 4, Timeout = 30,
         Rds = [\<lparr>redis_Name = ''sessions'', Address = ''localhost:6379''\<rparr>,
                \<lparr>redis_Name = ''queue'', Address = ''localhost:6380''\<rparr>]\<rparr>,
      cfg_ObjectStorageConfig = []\<rparr>"

text \<open>The database with a replica and nothing else.\<close>

definition cfg_replicated :: Config where
  "cfg_replicated =
     \<lparr>cfg_DBConfig =
        \<lparr>default_MaxRetry = 1, default_MaxOpenConnections = 5,
         default_MaxIdleConnections = 1, SQLDBs = [db_replicated]\<rparr>,
      cfg_RedisConfig = \<lparr>MaxActive = 8, MaxIdle = 4, Timeout = 30, Rds = []\<rparr>,
      cfg_ObjectStorageConfig = []\<rparr>"

text \<open>A registry with three object stores, two databases and one cache.\<close>

definition registry_six :: Kothak where
  "registry_six =
     \<lparr>objStorages = [''a'' \<mapsto> \<lparr>storage_provider = 1\<rparr>, ''b'' \<mapsto> \<lparr>storage_provider = 2\<rparr>,
                     ''c'' \<mapsto> \<lparr>storage_provider = 3\<rparr>],
      dbs = [''main'' \<mapsto> \<lparr>leader = 4, follower = 4\<rparr>,
             ''orders'' \<mapsto> \<lparr>leader = 5, follower = 6\<rparr>],
      rds = [''sessions'' \<mapsto> 7],
      logger = stdLogger\<rparr>"

definition iteration_six :: iteration where
  "iteration_six =
     \<lparr>objStorages_order = [''b'', ''c'', ''a''], dbs_order = [''orders'', ''main''],
      rds_order = [''sessions'']\<rparr>"

text \<open>Closers of which one object store's and one database's fail.\<close>

definition closers_failing :: closers where
  "closers_failing =
     \<lparr>Storage_Close = (\<lambda>h. if storage_provider h = 2 then Some ''close failed'' else None),
      DB_Close = (\<lambda>h. if leader h = 4 then Some ''close failed'' else None),
      Redis_Close = (\<lambda>h. None)\<rparr>"

section \<open>Properties\<close>

subsection \<open>The shared state after a sequence of writes\<close>

lemma rev_installs: "rev (installs r) = installs r"
  by (cases r) simp_all

lemma get_commit: "get (st_kothak (commit r s)) = get (st_kothak s) ++ map_of (installs r)"
proof (rule ext)
  fix key :: "family \<times> string"
  obtain f n where key: "key = (f, n)" by (cases key)
  show "get (st_kothak (commit r s)) key = (get (st_kothak s) ++ map_of (installs r)) key"
    unfolding key by (cases r; cases f) (simp_all add: map_add_def)
qed

lemma errs_commit: "st_errs (commit r s) = st_errs s @ failures r"
  by (cases r) simp_all

lemma logger_commit: "logger (st_kothak (commit r s)) = logger (st_kothak s)"
  by (cases r) simp_all

lemma commits_Nil: "commits [] s = s"
  by (simp add: commits_def)

lemma commits_Cons: "commits (r # rs) s = commits rs (commit r s)"
  by (simp add: commits_def)

lemma get_commits:
  "get (st_kothak (commits rs s)) = get (st_kothak s) ++ map_of (rev (concat (map installs rs)))"
proof (induction rs arbitrary: s)
  case Nil
  show ?case by (simp add: commits_Nil)
next
  case (Cons r rs)
  show ?case
    by (simp add: commits_Cons Cons.IH get_commit rev_installs)
qed

lemma errs_commits: "st_errs (commits rs s) = st_errs s @ concat (map failures rs)"
  by (induction rs arbitrary: s) (simp_all add: commits_Nil commits_Cons errs_commit)

lemma scheduled_perm:
  assumes "is_schedule sched (length xs)"
  shows "mset (scheduled sched xs) = mset xs"
proof -
  have "set sched = set [0..<length xs]"
    using assms unfolding is_schedule_def by (rule mset_eq_setD)
  then have all: "\<forall>i\<in>set sched. i < length xs" by simp
  then have "filter (\<lambda>i. i < length xs) sched = sched" by simp
  then have "mset (scheduled sched xs) = image_mset ((!) xs) (mset sched)"
    by (simp add: scheduled_def)
  also have "\<dots> = image_mset ((!) xs) (mset [0..<length xs])"
    using assms by (simp add: is_schedule_def)
  also have "\<dots> = mset (map ((!) xs) [0..<length xs])" by simp
  also have "\<dots> = mset xs" by (simp add: map_nth)
  finally show ?thesis .
qed

lemma outcomes_perm:
  assumes "is_schedule sched (length (units kothakConfig))"
  shows "mset (outcomes env kothakConfig sched) =
         mset (map (outcome_of env kothakConfig) (units kothakConfig))"
  using scheduled_perm [of sched "map (\<lambda>u. snd (runUnit env kothakConfig u)) (units kothakConfig)"]
    assms
  by (simp add: outcomes_def outcome_of_def [abs_def])

lemma objectStorageUnit_installs:
  "installs (snd (objectStorageUnit env c)) = [] \<or>
   (\<exists>h. installs (snd (objectStorageUnit env c)) = [((ObjectStorageFamily, objstorage_Name c), h)])"
  by (simp add: objectStorageUnit_def objectStorageSwitch_def Let_def split: sum.splits)

lemma redisUnit_installs:
  "installs (snd (redisUnit env rc c)) = [] \<or>
   (\<exists>h. installs (snd (redisUnit env rc c)) = [((CacheFamily, redis_Name c), h)])"
  by (simp add: redisUnit_def Let_def split: sum.splits)

lemma sqldbUnit_installs:
  "installs (snd (sqldbUnit env dc c)) = [] \<or>
   (\<exists>h. installs (snd (sqldbUnit env dc c)) = [((DatabaseFamily, sqldb_Name c), h)])"
  by (simp add: sqldbUnit_def wrapStep_def Let_def split: sum.splits option.splits)

lemma installs_outcome_of:
  "installs (outcome_of env kothakConfig u) = [] \<or>
   (\<exists>h. installs (outcome_of env kothakConfig u) = [(unit_key u, h)])"
  unfolding outcome_of_def
  by (cases u) (simp_all add: objectStorageUnit_installs redisUnit_installs sqldbUnit_installs)

lemma initial_get: "get (st_kothak (initial lg)) = Map.empty"
proof (rule ext)
  fix key :: "family \<times> string"
  obtain f n where key: "key = (f, n)" by (cases key)
  show "get (st_kothak (initial lg)) key = None"
    unfolding key by (cases f) (simp_all add: initial_def)
qed

lemma get_bringUp:
  "get (st_kothak (bringUp env kothakConfig lg sched)) =
   map_of (rev (concat (map installs (outcomes env kothakConfig sched))))"
  by (simp add: bringUp_def get_commits initial_get)

lemma errs_bringUp:
  "st_errs (bringUp env kothakConfig lg sched) =
   concat (map failures (outcomes env kothakConfig sched))"
  by (simp add: bringUp_def errs_commits initial_def)

lemma handle_of_installs:
  "handle_of env kothakConfig u = Some h \<longleftrightarrow>
   installs (outcome_of env kothakConfig u) = [(unit_key u, h)]"
  using installs_outcome_of [of env kothakConfig u]
  by (auto simp: handle_of_def)

lemma set_outcomes:
  assumes "is_schedule sched (length (units kothakConfig))"
  shows "set (outcomes env kothakConfig sched) = outcome_of env kothakConfig ` set (units kothakConfig)"
proof -
  have "set (outcomes env kothakConfig sched) =
        set (map (outcome_of env kothakConfig) (units kothakConfig))"
    using outcomes_perm [OF assms] by (rule mset_eq_setD)
  then show ?thesis by simp
qed

lemma installed_entries:
  assumes "is_schedule sched (length (units kothakConfig))"
  shows "set (concat (map installs (outcomes env kothakConfig sched))) =
         {(unit_key u, h) | u h. u \<in> set (units kothakConfig) \<and> handle_of env kothakConfig u = Some h}"
    (is "?L = ?R")
proof
  show "?L \<subseteq> ?R"
  proof
    fix e assume "e \<in> ?L"
    then obtain r where r: "r \<in> set (outcomes env kothakConfig sched)" and e: "e \<in> set (installs r)"
      by auto
    from r obtain u where u: "u \<in> set (units kothakConfig)" and ru: "r = outcome_of env kothakConfig u"
      using set_outcomes [OF assms] by auto
    from e ru installs_outcome_of [of env kothakConfig u]
    obtain h where "installs (outcome_of env kothakConfig u) = [(unit_key u, h)]" and "e = (unit_key u, h)"
      by auto
    then show "e \<in> ?R" using u by (auto simp: handle_of_installs)
  qed
next
  show "?R \<subseteq> ?L"
  proof
    fix e assume "e \<in> ?R"
    then obtain u h where u: "u \<in> set (units kothakConfig)"
      and h: "handle_of env kothakConfig u = Some h" and e: "e = (unit_key u, h)"
      by auto
    have "outcome_of env kothakConfig u \<in> set (outcomes env kothakConfig sched)"
      using u set_outcomes [OF assms] by auto
    moreover have "e \<in> set (installs (outcome_of env kothakConfig u))"
      using h e by (simp add: handle_of_installs)
    ultimately show "e \<in> ?L" by auto
  qed
qed

lemma bringUp_present:
  assumes sched: "is_schedule sched (length (units kothakConfig))"
    and u: "u \<in> set (units kothakConfig)"
    and h: "handle_of env kothakConfig u = Some h"
  shows "get (st_kothak (bringUp env kothakConfig lg sched)) (unit_key u) \<noteq> None"
proof -
  have "(unit_key u, h) \<in> set (rev (concat (map installs (outcomes env kothakConfig sched))))"
    using installed_entries [OF sched, of env] u h by auto
  then have "\<exists>x. map_of (rev (concat (map installs (outcomes env kothakConfig sched)))) (unit_key u) = Some x"
    by (rule weak_map_of_SomeI)
  then show ?thesis by (simp add: get_bringUp)
qed

lemma bringUp_origin:
  assumes sched: "is_schedule sched (length (units kothakConfig))"
    and g: "get (st_kothak (bringUp env kothakConfig lg sched)) key = Some h"
  shows "\<exists>u\<in>set (units kothakConfig). unit_key u = key \<and> handle_of env kothakConfig u = Some h"
proof -
  have "map_of (rev (concat (map installs (outcomes env kothakConfig sched)))) key = Some h"
    using g by (simp only: get_bringUp)
  then have "(key, h) \<in> set (rev (concat (map installs (outcomes env kothakConfig sched))))"
    by (rule map_of_SomeD)
  then have "(key, h) \<in> set (concat (map installs (outcomes env kothakConfig sched)))"
    by (simp only: set_rev)
  then show ?thesis
    unfolding installed_entries [OF sched, of env] by auto
qed



subsection \<open>Evaluating the concrete configurations\<close>

lemma env_ok_DBConfig_SetDefault: "DBConfig_SetDefault env_ok c = Inr c"
  by (simp add: env_ok_def)

lemma defaulted_same: "defaulted c (cfg_DBConfig c) = c"
  by (simp add: defaulted_def)






subsection \<open>Failures and the error returned\<close>



lemma env_cache_down_DBConfig_SetDefault: "DBConfig_SetDefault env_cache_down c = Inr c"
  by (simp add: env_cache_down_def env_ok_def)


lemma outcome_sessions_down:
  "snd (redisUnit env_cache_down rc c) = Failed ''cache unreachable''"
  by (simp add: redisUnit_def env_cache_down_def env_ok_def)

lemma outcome_main:
  "sqldbUnit env_ok dc db_main =
     ([EvConnConfigSetDefault (conn ''leader-dsn'') dc,
       EvConnect [] ''leader-dsn'' (connectOptions (conn ''leader-dsn'')), EvWrap 10 10],
      InstallDB ''main'' \<lparr>leader = 10, follower = 10\<rparr>)"
  by (simp add: sqldbUnit_def wrapStep_def db_main_def env_ok_def conn_def Let_def)




subsection \<open>Calls to collaborators\<close>

lemma objectStorageUnit_events:
  "e \<in> set (fst (objectStorageUnit env c)) \<Longrightarrow>
   \<not> is_DBConfigSetDefault e \<and> \<not> is_ConnConfigSetDefault e \<and> \<not> is_Connect e"
  by (auto simp: objectStorageUnit_def objectStorageSwitch_def Let_def split: sum.splits if_splits)

lemma redisUnit_events:
  "e \<in> set (fst (redisUnit env rc c)) \<Longrightarrow>
   \<not> is_DBConfigSetDefault e \<and> \<not> is_ConnConfigSetDefault e \<and> \<not> is_Connect e"
  by (auto simp: redisUnit_def Let_def split: sum.splits)

lemma sqldbUnit_events:
  "e \<in> set (fst (sqldbUnit env dc c)) \<Longrightarrow> \<not> is_DBConfigSetDefault e"
  by (auto simp: sqldbUnit_def wrapStep_def Let_def split: sum.splits if_splits option.splits)

lemma runUnit_events:
  "e \<in> set (fst (runUnit env kothakConfig u)) \<Longrightarrow> \<not> is_DBConfigSetDefault e"
  by (cases u) (auto dest: objectStorageUnit_events redisUnit_events sqldbUnit_events)

lemma set_scheduled: "set (scheduled sched xs) \<subseteq> set xs"
  by (auto simp: scheduled_def)

lemma bringUpEvents_no_DBConfigSetDefault:
  "e \<in> set (bringUpEvents env kothakConfig sched) \<Longrightarrow> \<not> is_DBConfigSetDefault e"
proof -
  assume "e \<in> set (bringUpEvents env kothakConfig sched)"
  then obtain t where t: "t \<in> set (scheduled sched
       (map (\<lambda>u. fst (runUnit env kothakConfig u)) (units kothakConfig)))" and e: "e \<in> set t"
    by (auto simp: bringUpEvents_def)
  from t set_scheduled obtain u where "t = fst (runUnit env kothakConfig u)"
    by fastforce
  with e show ?thesis by (auto dest: runUnit_events)
qed

lemma sqldbUnit_leader_defaulting:
  "\<exists>rest. fst (sqldbUnit env dbConfig c) =
      EvConnConfigSetDefault (LeaderConnConfig c) dbConfig # rest"
  by (simp add: sqldbUnit_def wrapStep_def Let_def split: sum.splits option.splits)

lemma sqldbUnit_leader_defaulting_fails:
  "ConnConfig_SetDefault env (LeaderConnConfig c) dbConfig = Inl err \<Longrightarrow>
   sqldbUnit env dbConfig c =
     ([EvConnConfigSetDefault (LeaderConnConfig c) dbConfig], Failed err)"
  by (simp add: sqldbUnit_def)

lemma failure_recorded:
  assumes s: "is_schedule sched (length (units kothakConfig))"
    and u: "u \<in> set (units kothakConfig)"
    and f: "outcome_of env kothakConfig u = Failed err"
  shows "err \<in> set (st_errs (bringUp env kothakConfig lg sched))"
proof -
  have "Failed err \<in> set (outcomes env kothakConfig sched)"
    using set_outcomes [OF s, of env] u f by force
  then show ?thesis by (force simp: errs_bringUp)
qed

lemma units_cfg_cache_and_db:
  "units cfg_cache_and_db =
     [RedisUnit \<lparr>redis_Name = ''sessions'', Address = ''localhost:6379''\<rparr>, SQLDBUnit db_main]"
  by (simp add: units_def cfg_cache_and_db_def)

lemma env_bad_leader_defaults_DBConfig_SetDefault:
  "DBConfig_SetDefault env_bad_leader_defaults c = Inr c"
  by (simp add: env_bad_leader_defaults_def env_ok_def)

lemma env_bad_leader_defaults_ConnConfig_SetDefault:
  "ConnConfig_SetDefault env_bad_leader_defaults c d = Inl ''leader defaults''"
  by (simp add: env_bad_leader_defaults_def env_ok_def)

lemma redisUnit_bad_leader_defaults:
  "redisUnit env_bad_leader_defaults (cfg_RedisConfig cfg_cache_and_db)
     \<lparr>redis_Name = ''sessions'', Address = ''localhost:6379''\<rparr> =
   ([EvRedigoNew ''localhost:6379'' \<lparr>rc_MaxActive = 8, rc_MaxIdle = 4, rc_Timeout = 30\<rparr>],
    InstallRedis ''sessions'' 14)"
  by (simp add: redisUnit_def env_bad_leader_defaults_def env_ok_def cfg_cache_and_db_def)

subsection \<open>Database goroutines\<close>

lemma installs_DBHandle:
  "installs r = [((DatabaseFamily, name), DBHandle h)] \<Longrightarrow> r = InstallDB name h"
  by (cases r) simp_all

lemma dbs_origin:
  assumes d: "DBConfig_SetDefault env (cfg_DBConfig kothakConfig) = Inr dbConfig"
    and s: "is_schedule sched (length (units (defaulted kothakConfig dbConfig)))"
    and n: "fst (New env kothakConfig lg sched) = Some k"
    and h: "dbs k name = Some h"
  shows "\<exists>c\<in>set (SQLDBs dbConfig). sqldb_Name c = name \<and>
           snd (sqldbUnit env dbConfig c) = InstallDB name h"
proof -
  let ?cfg = "defaulted kothakConfig dbConfig"
  have k: "k = st_kothak (bringUp env ?cfg lg sched)"
    using d n by (simp add: New_def Let_def)
  have "get (st_kothak (bringUp env ?cfg lg sched)) (DatabaseFamily, name) = Some (DBHandle h)"
    using h k by simp
  from bringUp_origin [OF s this]
  obtain u where u: "u \<in> set (units ?cfg)" and key: "unit_key u = (DatabaseFamily, name)"
    and ho: "handle_of env ?cfg u = Some (DBHandle h)"
    by blast
  from key obtain c where c: "u = SQLDBUnit c" and cn: "sqldb_Name c = name"
    by (cases u) auto
  have "c \<in> set (SQLDBs dbConfig)"
    using u c by (auto simp: units_def defaulted_def)
  moreover have "snd (sqldbUnit env dbConfig c) = InstallDB name h"
    using ho key c by (simp add: handle_of_installs outcome_of_def defaulted_def installs_DBHandle)
  ultimately show ?thesis using cn by blast
qed

lemma sqldbUnit_installed:
  assumes "snd (sqldbUnit env dbConfig c) = InstallDB name h"
  shows "\<exists>leaderConf.
     ConnConfig_SetDefault env (LeaderConnConfig c) dbConfig = Inr leaderConf \<and>
     sqldb_Connect env (Driver c) (DSN leaderConf) (connectOptions leaderConf) = Inr (leader h) \<and>
     (DSN (ReplicaConnConfig c) = [] \<longrightarrow>
        follower h = leader h \<and>
        filter is_Connect (fst (sqldbUnit env dbConfig c)) =
          [EvConnect (Driver c) (DSN leaderConf) (connectOptions leaderConf)]) \<and>
     (DSN (ReplicaConnConfig c) \<noteq> [] \<longrightarrow>
        sqldb_Connect env (Driver c) (DSN (ReplicaConnConfig c))
          (connectOptions (ReplicaConnConfig c)) = Inr (follower h) \<and>
        filter is_Connect (fst (sqldbUnit env dbConfig c)) =
          [EvConnect (Driver c) (DSN leaderConf) (connectOptions leaderConf),
           EvConnect (Driver c) (DSN (ReplicaConnConfig c))
             (connectOptions (ReplicaConnConfig c))])"
proof (cases "ConnConfig_SetDefault env (LeaderConnConfig c) dbConfig")
  case (Inl err)
  with assms show ?thesis by (simp add: sqldbUnit_def)
next
  case (Inr leaderConf)
  note lc = this
  show ?thesis
  proof (cases "sqldb_Connect env (Driver c) (DSN leaderConf) (connectOptions leaderConf)")
    case (Inl err)
    with assms lc show ?thesis by (simp add: sqldbUnit_def Let_def)
  next
    case (Inr leaderDB)
    note ld = this
    show ?thesis
    proof (cases "DSN (ReplicaConnConfig c) = []")
      case True
      with assms lc ld show ?thesis
        by (auto simp: sqldbUnit_def wrapStep_def Let_def split: option.splits)
    next
      case False
      with assms lc ld show ?thesis
        by (auto simp: sqldbUnit_def wrapStep_def Let_def split: option.splits sum.splits)
    qed
  qed
qed

lemma env_ok_ConnConfig_SetDefault: "ConnConfig_SetDefault env_ok c d = Inr c"
  by (simp add: env_ok_def)

lemma outcome_orders:
  "sqldbUnit env_ok dc db_replicated =
     ([EvConnConfigSetDefault (conn ''leader'') dc,
       EvConnect ''postgres'' ''leader'' (connectOptions (conn ''leader'')),
       EvConnect ''postgres'' ''replica-dsn'' (connectOptions (conn ''replica-dsn'')),
       EvWrap 6 11],
      InstallDB ''orders'' \<lparr>leader = 6, follower = 11\<rparr>)"
  by (simp add: sqldbUnit_def wrapStep_def db_replicated_def env_ok_def conn_def Let_def)

lemma units_cfg_replicated: "units cfg_replicated = [SQLDBUnit db_replicated]"
  by (simp add: units_def cfg_replicated_def)

lemma New_cfg_replicated:
  "New env_ok cfg_replicated stdLogger [0] =
     (Some \<lparr>objStorages = Map.empty,
            dbs = [''orders'' \<mapsto> \<lparr>leader = 6, follower = 11\<rparr>],
            rds = Map.empty, logger = stdLogger\<rparr>, None)"
  by (simp add: New_def env_ok_DBConfig_SetDefault defaulted_same bringUp_def outcomes_def
      scheduled_def commits_def initial_def units_cfg_replicated outcome_orders firstError_def)

lemma outcome_sessions:
  "redisUnit env_ok (cfg_RedisConfig cfg_cache_and_db)
     \<lparr>redis_Name = ''sessions'', Address = ''localhost:6379''\<rparr> =
   ([EvRedigoNew ''localhost:6379'' \<lparr>rc_MaxActive = 8, rc_MaxIdle = 4, rc_Timeout = 30\<rparr>],
    InstallRedis ''sessions'' 14)"
  by (simp add: redisUnit_def env_ok_def cfg_cache_and_db_def)

lemma New_cfg_cache_and_db:
  "New env_ok cfg_cache_and_db stdLogger [1, 0] =
     (Some \<lparr>objStorages = Map.empty,
            dbs = [''main'' \<mapsto> \<lparr>leader = 10, follower = 10\<rparr>],
            rds = [''sessions'' \<mapsto> 14], logger = stdLogger\<rparr>, None)"
  by (simp add: New_def env_ok_DBConfig_SetDefault defaulted_same bringUp_def outcomes_def
      scheduled_def commits_def initial_def units_cfg_cache_and_db outcome_main outcome_sessions
      firstError_def)

subsection \<open>Object-storage goroutines\<close>
















lemma redisUnit_env_ok:
  "redisUnit env_ok rc \<lparr>redis_Name = name, Address = address\<rparr> =
     ([EvRedigoNew address
         \<lparr>rc_MaxActive = MaxActive rc, rc_MaxIdle = MaxIdle rc, rc_Timeout = Timeout rc\<rparr>],
      InstallRedis name (length address))"
  by (simp add: redisUnit_def env_ok_def)





subsection \<open>Conflicting accesses\<close>

lemma units_cfg_two_caches:
  "units cfg_two_caches =
     [RedisUnit \<lparr>redis_Name = ''sessions'', Address = ''localhost:6379''\<rparr>,
      RedisUnit \<lparr>redis_Name = ''queue'', Address = ''localhost:6380''\<rparr>]"
  by (simp add: units_def cfg_two_caches_def)

lemma racing_pairs_two:
  "racing_pairs [a, b] =
     (if list_ex (\<lambda>x. list_ex (conflict x) (accesses b)) (accesses a) then [(0, 1)] else [])"
  by (simp add: racing_pairs_def upt_rec)

lemma race_of_two_units:
  assumes "i < j" "j < length rs"
    and "\<exists>a\<in>set (accesses (rs ! i)). \<exists>b\<in>set (accesses (rs ! j)). conflict a b"
  shows "racing_pairs rs \<noteq> []"
proof -
  have "(i, j) \<in> set (racing_pairs rs)"
    using assms by (auto simp: racing_pairs_def list_ex_iff)
  then show ?thesis by auto
qed

lemma accesses_write: "Write (location_of (last (accesses r))) \<in> set (accesses r)"
  by (cases r) simp_all

lemma UNIV_location: "(UNIV :: location set) = {LocErrs, LocObjStorages, LocDbs, LocRds}"
  by (auto intro: location.exhaust)

lemma five_units_race:
  assumes "5 \<le> length rs"
  shows "racing_pairs rs \<noteq> []"
proof -
  let ?w = "\<lambda>r. location_of (last (accesses r))"
  have fin: "finite (UNIV :: location set)" by (simp add: UNIV_location)
  have "card (set (map ?w rs)) \<le> card (UNIV :: location set)"
    using fin by (rule card_mono) simp
  also have "\<dots> \<le> 4" by (simp add: UNIV_location card_insert_if)
  finally have "card (set (map ?w rs)) < length (map ?w rs)" using assms by simp
  then have "\<not> distinct (map ?w rs)" using distinct_card by fastforce
  then obtain i j where ij: "i < j" "j < length rs" and eq: "?w (rs ! i) = ?w (rs ! j)"
    by (auto simp: distinct_conv_nth nat_neq_iff)
  have "conflict (Write (?w (rs ! i))) (Write (?w (rs ! j)))"
    using eq by (simp add: conflict_def)
  then have "\<exists>a\<in>set (accesses (rs ! i)). \<exists>b\<in>set (accesses (rs ! j)). conflict a b"
    using accesses_write by blast
  with ij show ?thesis by (rule race_of_two_units)
qed

lemma New_data_race_five_units:
  assumes "DBConfig_SetDefault env (cfg_DBConfig kothakConfig) = Inr dbConfig"
    and "5 \<le> length (units (defaulted kothakConfig dbConfig))"
  shows "New_data_race env kothakConfig"
  using assms by (simp add: New_data_race_def five_units_race)

subsection \<open>Ranging over the registry\<close>

lemma rangeMap_enumerates:
  assumes "enumerates ks m"
  shows "rangeMap m ks = map (\<lambda>n. the (m n)) ks"
proof -
  have "\<forall>n\<in>set ks. m n \<noteq> None"
    using assms by (auto simp: enumerates_def)
  then have "filter (\<lambda>n. m n \<noteq> None) ks = ks" by simp
  then show ?thesis by (simp add: rangeMap_def List.map_filter_def comp_def)
qed

lemma length_enumerates:
  assumes "enumerates ks m"
  shows "length ks = card (dom m)"
  using assms distinct_card [of ks] by (simp add: enumerates_def)

lemma is_iteration_six: "is_iteration iteration_six registry_six"
  by (auto simp: is_iteration_def enumerates_def iteration_six_def registry_six_def dom_def)

subsection \<open>Fail-fast accessors\<close>

text \<open>
  With a logger whose \<^verbatim>\<open>Fatalf\<close> returns, the fail-fast accessor returns a nil handle
  on a miss.
\<close>

lemma MustGet_when_Fatalf_returns:
  "dbs k name = None \<Longrightarrow>
   Fatalf (logger k) (''kothak: sql database with name '' @ name @ '' does not exists'') =
     ReturnsToCaller \<Longrightarrow>
   MustGetSQLDB k name = (Returns None, k)"
  by (simp add: MustGetSQLDB_def)

subsection \<open>Database goroutines and the registry\<close>

lemma sqldbUnit_empty_driver:
  assumes "Driver c = []"
  shows "(\<forall>err. ConnConfig_SetDefault env (LeaderConnConfig c) dbConfig = Inl err \<longrightarrow>
            filter is_Connect (fst (sqldbUnit env dbConfig c)) = []) \<and>
         (\<forall>leaderConf. ConnConfig_SetDefault env (LeaderConnConfig c) dbConfig = Inr leaderConf \<longrightarrow>
            hd (filter is_Connect (fst (sqldbUnit env dbConfig c))) =
              EvConnect [] (DSN leaderConf) (connectOptions leaderConf) \<and>
            (\<forall>err. sqldb_Connect env [] (DSN leaderConf) (connectOptions leaderConf) = Inl err \<longrightarrow>
               snd (sqldbUnit env dbConfig c) = Failed err) \<and>
            (\<forall>leaderDB. sqldb_Connect env [] (DSN leaderConf) (connectOptions leaderConf) =
                 Inr leaderDB \<longrightarrow>
               (DSN (ReplicaConnConfig c) = [] \<longrightarrow>
                  filter is_Connect (fst (sqldbUnit env dbConfig c)) =
                    [EvConnect [] (DSN leaderConf) (connectOptions leaderConf)] \<and>
                  (sqldb_Wrap env leaderDB leaderDB = None \<longrightarrow>
                     snd (sqldbUnit env dbConfig c) =
                       InstallDB (sqldb_Name c) \<lparr>leader = leaderDB, follower = leaderDB\<rparr>)) \<and>
               (DSN (ReplicaConnConfig c) \<noteq> [] \<longrightarrow>
                  filter is_Connect (fst (sqldbUnit env dbConfig c)) =
                    [EvConnect [] (DSN leaderConf) (connectOptions leaderConf),
                     EvConnect [] (DSN (ReplicaConnConfig c))
                       (connectOptions (ReplicaConnConfig c))] \<and>
                  (\<forall>err. sqldb_Connect env [] (DSN (ReplicaConnConfig c))
                       (connectOptions (ReplicaConnConfig c)) = Inl err \<longrightarrow>
                     snd (sqldbUnit env dbConfig c) = Failed err))))"
  using assms
  by (auto simp: sqldbUnit_def wrapStep_def Let_def split: sum.splits option.splits)

lemma New_unit_not_rejected:
  assumes d: "DBConfig_SetDefault env (cfg_DBConfig kothakConfig) = Inr dbConfig"
    and s: "is_schedule sched (length (units (defaulted kothakConfig dbConfig)))"
    and c: "c \<in> set (SQLDBs dbConfig)"
  shows "fst (New env kothakConfig lg sched) \<noteq> None \<and>
         (\<forall>err. snd (sqldbUnit env dbConfig c) = Failed err \<longrightarrow>
            err \<in> set (NewErrs env kothakConfig lg sched)) \<and>
         (\<forall>h. snd (sqldbUnit env dbConfig c) = InstallDB (sqldb_Name c) h \<longrightarrow>
            (\<exists>k. fst (New env kothakConfig lg sched) = Some k \<and> dbs k (sqldb_Name c) \<noteq> None))"
proof -
  let ?cfg = "defaulted kothakConfig dbConfig"
  let ?s = "bringUp env ?cfg lg sched"
  have u: "SQLDBUnit c \<in> set (units ?cfg)"
    using c by (simp add: units_def defaulted_def)
  have o: "outcome_of env ?cfg (SQLDBUnit c) = snd (sqldbUnit env dbConfig c)"
    by (simp add: outcome_of_def defaulted_def)
  have n: "fst (New env kothakConfig lg sched) = Some (st_kothak ?s)"
    using d by (simp add: New_def Let_def)
  have e: "NewErrs env kothakConfig lg sched = st_errs ?s"
    using d by (simp add: NewErrs_def)
  have f: "err \<in> set (NewErrs env kothakConfig lg sched)"
    if "snd (sqldbUnit env dbConfig c) = Failed err" for err
    using failure_recorded [OF s u, of env err lg] that o e by simp
  have i: "dbs (st_kothak ?s) (sqldb_Name c) \<noteq> None"
    if "snd (sqldbUnit env dbConfig c) = InstallDB (sqldb_Name c) h" for h
  proof -
    have "handle_of env ?cfg (SQLDBUnit c) = Some (DBHandle h)"
      using that o by (simp add: handle_of_def)
    from bringUp_present [OF s u this, of lg] show ?thesis by simp
  qed
  from n f i show ?thesis by auto
qed

lemma env_db_down_simps:
  "DBConfig_SetDefault env_db_down dc = Inr dc"
  "ConnConfig_SetDefault env_db_down cc dc = Inr cc"
  "sqldb_Connect env_db_down driver dsn opts = Inl ''unknown driver''"
  by (simp_all add: env_db_down_def env_ok_def)

section \<open>The claims\<close>

subsection \<open>C1: partial bring-up\<close>




subsection \<open>C2: the error New returns\<close>



subsection \<open>C3: defaulting\<close>

text \<open>
  C3, as the code has it. \<^verbatim>\<open>DBConfig.SetDefault\<close> is called once, before any goroutine
  is started, and no goroutine calls it again; when it fails, \<^verbatim>\<open>New\<close> returns a nil
  registry and that error and has made no other call. Besides, every database goroutine
  begins by calling \<^verbatim>\<open>SetDefault\<close> on its own leader connection (line 198); a failure
  there ends that goroutine alone: its error is appended to \<^verbatim>\<open>errs\<close> and \<^verbatim>\<open>New\<close> still
  returns a registry.
\<close>

theorem New_defaulting:
  "(\<exists>rest. NewEvents env kothakConfig sched =
      EvDBConfigSetDefault (cfg_DBConfig kothakConfig) # rest \<and>
      (\<forall>e\<in>set rest. \<not> is_DBConfigSetDefault e)) \<and>
   (\<forall>err. DBConfig_SetDefault env (cfg_DBConfig kothakConfig) = Inl err \<longrightarrow>
      New env kothakConfig lg sched = (None, Some err) \<and>
      NewEvents env kothakConfig sched = [EvDBConfigSetDefault (cfg_DBConfig kothakConfig)]) \<and>
   (\<forall>dbConfig c.
      (\<exists>rest. fst (sqldbUnit env dbConfig c) =
         EvConnConfigSetDefault (LeaderConnConfig c) dbConfig # rest) \<and>
      (\<forall>err. ConnConfig_SetDefault env (LeaderConnConfig c) dbConfig = Inl err \<longrightarrow>
         sqldbUnit env dbConfig c =
           ([EvConnConfigSetDefault (LeaderConnConfig c) dbConfig], Failed err) \<and>
         (DBConfig_SetDefault env (cfg_DBConfig kothakConfig) = Inr dbConfig \<longrightarrow>
          is_schedule sched (length (units (defaulted kothakConfig dbConfig))) \<longrightarrow>
          c \<in> set (SQLDBs dbConfig) \<longrightarrow>
          fst (New env kothakConfig lg sched) \<noteq> None \<and>
          err \<in> set (NewErrs env kothakConfig lg sched))))"
proof (intro conjI allI impI)
  show "\<exists>rest. NewEvents env kothakConfig sched =
      EvDBConfigSetDefault (cfg_DBConfig kothakConfig) # rest \<and>
      (\<forall>e\<in>set rest. \<not> is_DBConfigSetDefault e)"
    by (auto simp: NewEvents_def split: sum.splits dest: bringUpEvents_no_DBConfigSetDefault)
next
  fix err
  assume "DBConfig_SetDefault env (cfg_DBConfig kothakConfig) = Inl err"
  then show "New env kothakConfig lg sched = (None, Some err)"
    and "NewEvents env kothakConfig sched = [EvDBConfigSetDefault (cfg_DBConfig kothakConfig)]"
    by (simp_all add: New_def NewEvents_def)
next
  fix dbConfig :: DBConfig and c :: SQLDBConfig
  show "\<exists>rest. fst (sqldbUnit env dbConfig c) =
         EvConnConfigSetDefault (LeaderConnConfig c) dbConfig # rest"
    by (rule sqldbUnit_leader_defaulting)
next
  fix dbConfig :: DBConfig and c :: SQLDBConfig and err :: error
  assume "ConnConfig_SetDefault env (LeaderConnConfig c) dbConfig = Inl err"
  then show "sqldbUnit env dbConfig c =
           ([EvConnConfigSetDefault (LeaderConnConfig c) dbConfig], Failed err)"
    by (rule sqldbUnit_leader_defaulting_fails)
next
  fix dbConfig :: DBConfig and c :: SQLDBConfig and err :: error
  assume "DBConfig_SetDefault env (cfg_DBConfig kothakConfig) = Inr dbConfig"
  then show "fst (New env kothakConfig lg sched) \<noteq> None"
    by (simp add: New_def Let_def)
next
  fix dbConfig :: DBConfig and c :: SQLDBConfig and err :: error
  assume l: "ConnConfig_SetDefault env (LeaderConnConfig c) dbConfig = Inl err"
    and d: "DBConfig_SetDefault env (cfg_DBConfig kothakConfig) = Inr dbConfig"
    and s: "is_schedule sched (length (units (defaulted kothakConfig dbConfig)))"
    and c: "c \<in> set (SQLDBs dbConfig)"
  let ?cfg = "defaulted kothakConfig dbConfig"
  have u: "SQLDBUnit c \<in> set (units ?cfg)"
    using c by (simp add: units_def defaulted_def)
  have f: "outcome_of env ?cfg (SQLDBUnit c) = Failed err"
    using sqldbUnit_leader_defaulting_fails [OF l] by (simp add: outcome_of_def defaulted_def)
  show "err \<in> set (NewErrs env kothakConfig lg sched)"
    using failure_recorded [OF s u f] d by (simp add: NewErrs_def)
qed

text \<open>
  The theorem at \<open>cfg_cache_and_db\<close>: once with a leader defaulting that fails, once
  with a \<^verbatim>\<open>DBConfig.SetDefault\<close> that fails.
\<close>

theorem New_defaulting_witness:
  "ConnConfig_SetDefault env_bad_leader_defaults (LeaderConnConfig db_main)
      (cfg_DBConfig cfg_cache_and_db) = Inl ''leader defaults'' \<and>
   DBConfig_SetDefault env_bad_leader_defaults (cfg_DBConfig cfg_cache_and_db) =
      Inr (cfg_DBConfig cfg_cache_and_db) \<and>
   is_schedule [1, 0] (length (units cfg_cache_and_db)) \<and>
   db_main \<in> set (SQLDBs (cfg_DBConfig cfg_cache_and_db)) \<and>
   fst (New env_bad_leader_defaults cfg_cache_and_db stdLogger [1, 0]) \<noteq> None \<and>
   ''leader defaults'' \<in> set (NewErrs env_bad_leader_defaults cfg_cache_and_db stdLogger [1, 0]) \<and>
   DBConfig_SetDefault env_bad_defaults (cfg_DBConfig cfg_cache_and_db) =
      Inl ''conflicting defaults'' \<and>
   New env_bad_defaults cfg_cache_and_db stdLogger [1, 0] = (None, Some ''conflicting defaults'') \<and>
   NewEvents env_bad_defaults cfg_cache_and_db [1, 0] =
      [EvDBConfigSetDefault (cfg_DBConfig cfg_cache_and_db)]"
proof -
  have l: "ConnConfig_SetDefault env_bad_leader_defaults (LeaderConnConfig db_main)
      (cfg_DBConfig cfg_cache_and_db) = Inl ''leader defaults''"
    by (rule env_bad_leader_defaults_ConnConfig_SetDefault)
  have d: "DBConfig_SetDefault env_bad_leader_defaults (cfg_DBConfig cfg_cache_and_db) =
      Inr (cfg_DBConfig cfg_cache_and_db)"
    by (rule env_bad_leader_defaults_DBConfig_SetDefault)
  have s: "is_schedule [1, 0] (length (units cfg_cache_and_db))"
    unfolding units_cfg_cache_and_db is_schedule_def by code_simp
  have c: "db_main \<in> set (SQLDBs (cfg_DBConfig cfg_cache_and_db))"
    by (simp add: cfg_cache_and_db_def)
  have b: "DBConfig_SetDefault env_bad_defaults (cfg_DBConfig cfg_cache_and_db) =
      Inl ''conflicting defaults''"
    by (simp add: env_bad_defaults_def env_ok_def)
  note t1 = New_defaulting [of env_bad_leader_defaults cfg_cache_and_db "[1, 0]" stdLogger]
  note t2 = New_defaulting [of env_bad_defaults cfg_cache_and_db "[1, 0]" stdLogger]
  have r1: "fst (New env_bad_leader_defaults cfg_cache_and_db stdLogger [1, 0]) \<noteq> None \<and>
     ''leader defaults'' \<in> set (NewErrs env_bad_leader_defaults cfg_cache_and_db stdLogger [1, 0])"
    using t1 l d s c by (simp only: defaulted_same) blast
  have r2: "New env_bad_defaults cfg_cache_and_db stdLogger [1, 0] = (None, Some ''conflicting defaults'') \<and>
     NewEvents env_bad_defaults cfg_cache_and_db [1, 0] =
      [EvDBConfigSetDefault (cfg_DBConfig cfg_cache_and_db)]"
    using t2 b by blast
  from l d s c b r1 r2 show ?thesis by blast
qed

text \<open>
  Against C3 as stated: the leader's defaulting runs inside the database goroutine, here
  after the cache has been connected, and its failure leaves a registry that holds the
  cache.
\<close>

theorem New_defaulting_counterexample:
  "fst (New env_bad_leader_defaults cfg_cache_and_db stdLogger [0, 1]) \<noteq> None \<and>
   rds (the (fst (New env_bad_leader_defaults cfg_cache_and_db stdLogger [0, 1]))) ''sessions'' =
     Some 14 \<and>
   snd (New env_bad_leader_defaults cfg_cache_and_db stdLogger [0, 1]) = Some ''leader defaults'' \<and>
   NewEvents env_bad_leader_defaults cfg_cache_and_db [0, 1] =
     [EvDBConfigSetDefault (cfg_DBConfig cfg_cache_and_db),
      EvRedigoNew ''localhost:6379'' \<lparr>rc_MaxActive = 8, rc_MaxIdle = 4, rc_Timeout = 30\<rparr>,
      EvConnConfigSetDefault (LeaderConnConfig db_main) (cfg_DBConfig cfg_cache_and_db)]"
  by (simp add: New_def NewEvents_def env_bad_leader_defaults_DBConfig_SetDefault defaulted_same
      bringUp_def bringUpEvents_def outcomes_def scheduled_def commits_def initial_def
      units_cfg_cache_and_db redisUnit_bad_leader_defaults firstError_def
      sqldbUnit_leader_defaulting_fails [OF env_bad_leader_defaults_ConnConfig_SetDefault])

subsection \<open>C4: leader and follower pools\<close>

text \<open>
  C4. Every database handle in the registry \<^verbatim>\<open>New\<close> returns was installed under its
  name by the goroutine of a database entry of that name. The leader of a handle a
  goroutine installs is the pool its first \<^verbatim>\<open>sqldb.Connect\<close> returned. If the entry's
  replica DSN is empty, the follower is that same pool, the same address and not a copy,
  and that \<^verbatim>\<open>Connect\<close> is the only one the goroutine makes. If the replica DSN is not
  empty, the follower is the pool a second \<^verbatim>\<open>Connect\<close> returned, made on the replica
  DSN after the leader's.
\<close>

theorem New_follower_pool:
  "(\<forall>dbConfig k name h.
      DBConfig_SetDefault env (cfg_DBConfig kothakConfig) = Inr dbConfig \<longrightarrow>
      is_schedule sched (length (units (defaulted kothakConfig dbConfig))) \<longrightarrow>
      fst (New env kothakConfig lg sched) = Some k \<longrightarrow>
      dbs k name = Some h \<longrightarrow>
      (\<exists>c\<in>set (SQLDBs dbConfig). sqldb_Name c = name \<and>
         snd (sqldbUnit env dbConfig c) = InstallDB name h)) \<and>
   (\<forall>dbConfig c name h.
      snd (sqldbUnit env dbConfig c) = InstallDB name h \<longrightarrow>
      (\<exists>leaderConf.
         ConnConfig_SetDefault env (LeaderConnConfig c) dbConfig = Inr leaderConf \<and>
         sqldb_Connect env (Driver c) (DSN leaderConf) (connectOptions leaderConf) =
           Inr (leader h) \<and>
         (DSN (ReplicaConnConfig c) = [] \<longrightarrow>
            follower h = leader h \<and>
            filter is_Connect (fst (sqldbUnit env dbConfig c)) =
              [EvConnect (Driver c) (DSN leaderConf) (connectOptions leaderConf)]) \<and>
         (DSN (ReplicaConnConfig c) \<noteq> [] \<longrightarrow>
            sqldb_Connect env (Driver c) (DSN (ReplicaConnConfig c))
              (connectOptions (ReplicaConnConfig c)) = Inr (follower h) \<and>
            filter is_Connect (fst (sqldbUnit env dbConfig c)) =
              [EvConnect (Driver c) (DSN leaderConf) (connectOptions leaderConf),
               EvConnect (Driver c) (DSN (ReplicaConnConfig c))
                 (connectOptions (ReplicaConnConfig c))])))"
  using dbs_origin sqldbUnit_installed by blast

text \<open>
  The theorem at \<open>db_main\<close>, which has no replica, and at \<open>db_replicated\<close>, which
  has one.
\<close>

theorem New_follower_pool_witness:
  "(\<exists>k. fst (New env_ok cfg_cache_and_db stdLogger [1, 0]) = Some k \<and>
        dbs k ''main'' = Some \<lparr>leader = 10, follower = 10\<rparr>) \<and>
   DSN (ReplicaConnConfig db_main) = [] \<and>
   is_schedule [1, 0] (length (units cfg_cache_and_db)) \<and>
   snd (sqldbUnit env_ok (cfg_DBConfig cfg_cache_and_db) db_main) =
     InstallDB ''main'' \<lparr>leader = 10, follower = 10\<rparr> \<and>
   filter is_Connect (fst (sqldbUnit env_ok (cfg_DBConfig cfg_cache_and_db) db_main)) =
     [EvConnect [] ''leader-dsn'' (connectOptions (conn ''leader-dsn''))] \<and>
   (\<exists>k. fst (New env_ok cfg_replicated stdLogger [0]) = Some k \<and>
        dbs k ''orders'' = Some \<lparr>leader = 6, follower = 11\<rparr>) \<and>
   DSN (ReplicaConnConfig db_replicated) \<noteq> [] \<and>
   is_schedule [0] (length (units cfg_replicated)) \<and>
   snd (sqldbUnit env_ok (cfg_DBConfig cfg_replicated) db_replicated) =
     InstallDB ''orders'' \<lparr>leader = 6, follower = 11\<rparr> \<and>
   filter is_Connect (fst (sqldbUnit env_ok (cfg_DBConfig cfg_replicated) db_replicated)) =
     [EvConnect ''postgres'' ''leader'' (connectOptions (conn ''leader'')),
      EvConnect ''postgres'' ''replica-dsn'' (connectOptions (conn ''replica-dsn''))]"
proof -
  let ?h1 = "\<lparr>leader = 10, follower = 10\<rparr> :: sqldb_DB"
  let ?h2 = "\<lparr>leader = 6, follower = 11\<rparr> :: sqldb_DB"
  have d1: "DBConfig_SetDefault env_ok (cfg_DBConfig cfg_cache_and_db) =
            Inr (cfg_DBConfig cfg_cache_and_db)"
    by (rule env_ok_DBConfig_SetDefault)
  have d2: "DBConfig_SetDefault env_ok (cfg_DBConfig cfg_replicated) =
            Inr (cfg_DBConfig cfg_replicated)"
    by (rule env_ok_DBConfig_SetDefault)
  have s1: "is_schedule [1, 0] (length (units cfg_cache_and_db))"
    unfolding units_cfg_cache_and_db is_schedule_def by code_simp
  have s2: "is_schedule [0] (length (units cfg_replicated))"
    unfolding units_cfg_replicated is_schedule_def by code_simp
  have s1': "is_schedule [1, 0]
      (length (units (defaulted cfg_cache_and_db (cfg_DBConfig cfg_cache_and_db))))"
    using s1 by (simp only: defaulted_same)
  have s2': "is_schedule [0] (length (units (defaulted cfg_replicated (cfg_DBConfig cfg_replicated))))"
    using s2 by (simp only: defaulted_same)
  have n1: "fst (New env_ok cfg_cache_and_db stdLogger [1, 0]) =
      Some \<lparr>objStorages = Map.empty, dbs = [''main'' \<mapsto> ?h1],
            rds = [''sessions'' \<mapsto> 14], logger = stdLogger\<rparr>"
    by (simp only: New_cfg_cache_and_db fst_conv)
  have n2: "fst (New env_ok cfg_replicated stdLogger [0]) =
      Some \<lparr>objStorages = Map.empty, dbs = [''orders'' \<mapsto> ?h2],
            rds = Map.empty, logger = stdLogger\<rparr>"
    by (simp only: New_cfg_replicated fst_conv)
  have g1: "dbs \<lparr>objStorages = Map.empty, dbs = [''main'' \<mapsto> ?h1],
            rds = [''sessions'' \<mapsto> 14], logger = stdLogger\<rparr> ''main'' = Some ?h1"
    by simp
  have g2: "dbs \<lparr>objStorages = Map.empty, dbs = [''orders'' \<mapsto> ?h2],
            rds = Map.empty, logger = stdLogger\<rparr> ''orders'' = Some ?h2"
    by simp
  have e1: "DSN (ReplicaConnConfig db_main) = []" by (simp add: db_main_def conn_def)
  have e2: "DSN (ReplicaConnConfig db_replicated) \<noteq> []" by (simp add: db_replicated_def conn_def)
  from New_follower_pool [of env_ok cfg_cache_and_db "[1, 0]" stdLogger, THEN conjunct1, rule_format,
      OF d1 s1' n1 g1]
  have o1: "snd (sqldbUnit env_ok (cfg_DBConfig cfg_cache_and_db) db_main) = InstallDB ''main'' ?h1"
    by (simp add: cfg_cache_and_db_def)
  from New_follower_pool [of env_ok cfg_replicated "[0]" stdLogger, THEN conjunct1, rule_format,
      OF d2 s2' n2 g2]
  have o2: "snd (sqldbUnit env_ok (cfg_DBConfig cfg_replicated) db_replicated) =
            InstallDB ''orders'' ?h2"
    by (simp add: cfg_replicated_def)
  from New_follower_pool [of env_ok cfg_cache_and_db "[1, 0]" stdLogger, THEN conjunct2, rule_format,
      OF o1] e1
  have f1: "filter is_Connect (fst (sqldbUnit env_ok (cfg_DBConfig cfg_cache_and_db) db_main)) =
     [EvConnect [] ''leader-dsn'' (connectOptions (conn ''leader-dsn''))]"
    by (auto simp: env_ok_ConnConfig_SetDefault db_main_def conn_def)
  from New_follower_pool [of env_ok cfg_replicated "[0]" stdLogger, THEN conjunct2, rule_format,
      OF o2] e2
  have f2: "filter is_Connect (fst (sqldbUnit env_ok (cfg_DBConfig cfg_replicated) db_replicated)) =
     [EvConnect ''postgres'' ''leader'' (connectOptions (conn ''leader'')),
      EvConnect ''postgres'' ''replica-dsn'' (connectOptions (conn ''replica-dsn''))]"
    by (auto simp: env_ok_ConnConfig_SetDefault db_replicated_def conn_def)
  have k1: "\<exists>k. fst (New env_ok cfg_cache_and_db stdLogger [1, 0]) = Some k \<and> dbs k ''main'' = Some ?h1"
    using n1 g1 by blast
  have k2: "\<exists>k. fst (New env_ok cfg_replicated stdLogger [0]) = Some k \<and> dbs k ''orders'' = Some ?h2"
    using n2 g2 by blast
  from k1 k2 s1 s2 e1 e2 o1 o2 f1 f2 show ?thesis
    by (intro conjI)
qed

subsection \<open>C5: provider selection\<close>



subsection \<open>C6: the goroutines and the shared state\<close>

text \<open>
  C6 asks that no two goroutines of \<^verbatim>\<open>New\<close> touch \<^verbatim>\<open>errs\<close> or a map of the registry
  without synchronisation. The code does not have it so. With two caches that both
  connect, the two goroutines both store into \<^verbatim>\<open>kothak.rds\<close> (line 173); with two caches
  that both fail, both read and write \<^verbatim>\<open>errs\<close> (line 167); nothing orders the one before
  the other. By \<open>New_data_race_five_units\<close> the same holds of every configuration of
  five resources or more, so of one with fifty.
\<close>

theorem New_data_race_two_caches:
  "New_data_race env_ok cfg_two_caches \<and> New_data_race env_cache_down cfg_two_caches"
  by (simp add: New_data_race_def env_ok_DBConfig_SetDefault env_cache_down_DBConfig_SetDefault
      defaulted_same units_cfg_two_caches redisUnit_env_ok outcome_sessions_down racing_pairs_two
      conflict_def)

subsection \<open>C7: what CloseAll closes\<close>

text \<open>
  C7. Whatever the registry holds and whatever the individual closes return,
  \<^verbatim>\<open>CloseAll\<close> calls \<^verbatim>\<open>Close\<close> once for every entry of the object-storage map, then
  once for every entry of the database map, then once for every entry of the cache map,
  in the order the three \<^verbatim>\<open>range\<close> loops visit the entries; that is as many calls as
  there are registered names, a failed close does not stop the ones after it, and the
  error \<^verbatim>\<open>CloseAll\<close> returns is nil.
\<close>

theorem CloseAll_closes_every_handle:
  assumes "is_iteration it k"
  shows "fst (CloseAll cl it k) =
           map (\<lambda>n. CloseObjStorage (the (objStorages k n))
                       (Storage_Close cl (the (objStorages k n)))) (objStorages_order it) @
           map (\<lambda>n. CloseDB (the (dbs k n)) (DB_Close cl (the (dbs k n)))) (dbs_order it) @
           map (\<lambda>n. CloseRedis (the (rds k n)) (Redis_Close cl (the (rds k n)))) (rds_order it) \<and>
         distinct (objStorages_order it) \<and> set (objStorages_order it) = dom (objStorages k) \<and>
         distinct (dbs_order it) \<and> set (dbs_order it) = dom (dbs k) \<and>
         distinct (rds_order it) \<and> set (rds_order it) = dom (rds k) \<and>
         length (fst (CloseAll cl it k)) =
           card (dom (objStorages k)) + card (dom (dbs k)) + card (dom (rds k)) \<and>
         fst (snd (CloseAll cl it k)) = None"
proof -
  from assms have o: "enumerates (objStorages_order it) (objStorages k)"
    and d: "enumerates (dbs_order it) (dbs k)"
    and r: "enumerates (rds_order it) (rds k)"
    by (simp_all add: is_iteration_def)
  have e: "fst (CloseAll cl it k) =
           map (\<lambda>n. CloseObjStorage (the (objStorages k n))
                       (Storage_Close cl (the (objStorages k n)))) (objStorages_order it) @
           map (\<lambda>n. CloseDB (the (dbs k n)) (DB_Close cl (the (dbs k n)))) (dbs_order it) @
           map (\<lambda>n. CloseRedis (the (rds k n)) (Redis_Close cl (the (rds k n)))) (rds_order it)"
    by (simp add: CloseAll_def rangeMap_enumerates [OF o] rangeMap_enumerates [OF d]
        rangeMap_enumerates [OF r] comp_def)
  have l: "length (fst (CloseAll cl it k)) =
           card (dom (objStorages k)) + card (dom (dbs k)) + card (dom (rds k))"
    by (simp add: e length_enumerates [OF o] length_enumerates [OF d] length_enumerates [OF r])
  have n: "fst (snd (CloseAll cl it k)) = None"
    by (simp add: CloseAll_def)
  from e l n o d r show ?thesis by (simp add: enumerates_def)
qed

text \<open>
  The theorem at a registry of three object stores, two databases and one cache, with
  closers of which two fail: six calls, one for each handle.
\<close>

theorem CloseAll_closes_every_handle_witness:
  "is_iteration iteration_six registry_six \<and>
   fst (CloseAll closers_failing iteration_six registry_six) =
     [CloseObjStorage \<lparr>storage_provider = 2\<rparr> (Some ''close failed''),
      CloseObjStorage \<lparr>storage_provider = 3\<rparr> None,
      CloseObjStorage \<lparr>storage_provider = 1\<rparr> None,
      CloseDB \<lparr>leader = 5, follower = 6\<rparr> None,
      CloseDB \<lparr>leader = 4, follower = 4\<rparr> (Some ''close failed''),
      CloseRedis 7 None] \<and>
   fst (snd (CloseAll closers_failing iteration_six registry_six)) = None"
proof -
  note t = CloseAll_closes_every_handle [OF is_iteration_six, of closers_failing]
  have "fst (CloseAll closers_failing iteration_six registry_six) =
     [CloseObjStorage \<lparr>storage_provider = 2\<rparr> (Some ''close failed''),
      CloseObjStorage \<lparr>storage_provider = 3\<rparr> None,
      CloseObjStorage \<lparr>storage_provider = 1\<rparr> None,
      CloseDB \<lparr>leader = 5, follower = 6\<rparr> None,
      CloseDB \<lparr>leader = 4, follower = 4\<rparr> (Some ''close failed''),
      CloseRedis 7 None]"
    using t by (simp add: iteration_six_def registry_six_def closers_failing_def)
  with t is_iteration_six show ?thesis by simp
qed

subsection \<open>C8: the accessors\<close>

text \<open>
  C8. In each of the three families, for a name the registry does not hold, the fallible
  accessor returns a nil handle and an error that names the family and the name, the
  process goes on and the registry is as before, while the fail-fast accessor hands that
  message to \<^verbatim>\<open>Fatalf\<close> of the registry's logger, and the process ends there, \<^verbatim>\<open>Fatalf\<close>
  being a call that ends the process. For a name the registry holds, both return the
  registered handle, the fallible one with a nil error, and the registry is as before.
\<close>

theorem accessors:
  "(dbs k name = None \<longrightarrow>
      GetSQLDB k name =
        ((None, Some (''kothak: sql database with name '' @ name @ '' does not exists'')), k) \<and>
      (Fatalf (logger k) (''kothak: sql database with name '' @ name @ '' does not exists'') =
         EndsProcess \<longrightarrow>
       MustGetSQLDB k name =
         (ProcessExits (''kothak: sql database with name '' @ name @ '' does not exists''), k))) \<and>
   (\<forall>h. dbs k name = Some h \<longrightarrow>
      GetSQLDB k name = ((Some h, None), k) \<and> MustGetSQLDB k name = (Returns (Some h), k)) \<and>
   (rds k name = None \<longrightarrow>
      GetRedis k name =
        ((None, Some (''kothak: redis with name '' @ name @ '' does not exists'')), k) \<and>
      (Fatalf (logger k) (''Kothak: redis with name '' @ name @ '' does not exists'') =
         EndsProcess \<longrightarrow>
       MustGetRedis k name =
         (ProcessExits (''Kothak: redis with name '' @ name @ '' does not exists''), k))) \<and>
   (\<forall>h. rds k name = Some h \<longrightarrow>
      GetRedis k name = ((Some h, None), k) \<and> MustGetRedis k name = (Returns (Some h), k)) \<and>
   (objStorages k name = None \<longrightarrow>
      GetObjectStorage k name =
        ((None, Some (''kothak: object storage with name '' @ name @ '' does not exists'')), k) \<and>
      (Fatalf (logger k) (''kothak: object storage with name '' @ name @ '' does not exists'') =
         EndsProcess \<longrightarrow>
       MustGetObjectStorage k name =
         (ProcessExits (''kothak: object storage with name '' @ name @ '' does not exists''),
          k))) \<and>
   (\<forall>h. objStorages k name = Some h \<longrightarrow>
      GetObjectStorage k name = ((Some h, None), k) \<and>
      MustGetObjectStorage k name = (Returns (Some h), k))"
  by (simp add: GetSQLDB_def MustGetSQLDB_def GetRedis_def MustGetRedis_def
      GetObjectStorage_def MustGetObjectStorage_def)

text \<open>
  The theorem at \<open>registry_six\<close>, whose logger ends the process, for a missing and a
  present name of each family.
\<close>

theorem accessors_witness:
  "dbs registry_six ''users'' = None \<and>
   Fatalf (logger registry_six) ''kothak: sql database with name users does not exists'' =
     EndsProcess \<and>
   GetSQLDB registry_six ''users'' =
     ((None, Some ''kothak: sql database with name users does not exists''), registry_six) \<and>
   MustGetSQLDB registry_six ''users'' =
     (ProcessExits ''kothak: sql database with name users does not exists'', registry_six) \<and>
   dbs registry_six ''orders'' = Some \<lparr>leader = 5, follower = 6\<rparr> \<and>
   GetSQLDB registry_six ''orders'' = ((Some \<lparr>leader = 5, follower = 6\<rparr>, None), registry_six) \<and>
   rds registry_six ''queue'' = None \<and>
   GetRedis registry_six ''queue'' =
     ((None, Some ''kothak: redis with name queue does not exists''), registry_six) \<and>
   MustGetRedis registry_six ''queue'' =
     (ProcessExits ''Kothak: redis with name queue does not exists'', registry_six) \<and>
   rds registry_six ''sessions'' = Some 7 \<and>
   GetRedis registry_six ''sessions'' = ((Some 7, None), registry_six) \<and>
   objStorages registry_six ''d'' = None \<and>
   GetObjectStorage registry_six ''d'' =
     ((None, Some ''kothak: object storage with name d does not exists''), registry_six) \<and>
   MustGetObjectStorage registry_six ''d'' =
     (ProcessExits ''kothak: object storage with name d does not exists'', registry_six) \<and>
   objStorages registry_six ''a'' = Some \<lparr>storage_provider = 1\<rparr> \<and>
   GetObjectStorage registry_six ''a'' = ((Some \<lparr>storage_provider = 1\<rparr>, None), registry_six)"
proof -
  have a: "dbs registry_six ''users'' = None" "dbs registry_six ''orders'' = Some \<lparr>leader = 5, follower = 6\<rparr>"
    "rds registry_six ''queue'' = None" "rds registry_six ''sessions'' = Some 7"
    "objStorages registry_six ''d'' = None" "objStorages registry_six ''a'' = Some \<lparr>storage_provider = 1\<rparr>"
    by (simp_all add: registry_six_def)
  have f: "Fatalf (logger registry_six) message = EndsProcess" for message
    by (simp add: registry_six_def stdLogger_def)
  from a f accessors [of registry_six "''users''"] accessors [of registry_six "''orders''"]
    accessors [of registry_six "''queue''"] accessors [of registry_six "''sessions''"]
    accessors [of registry_six "''d''"] accessors [of registry_six "''a''"]
  show ?thesis by simp
qed

subsection \<open>C9: the empty driver\<close>

text \<open>
  C9. A database entry whose driver is the empty string is not rejected: the test of
  line 193 does nothing, and the goroutine goes on as for any other driver. It makes
  no \<^verbatim>\<open>Connect\<close> only if the leader's defaulting fails; otherwise its first \<^verbatim>\<open>Connect\<close> is
  the leader's, with the empty string as driver, and, when that succeeds and a replica
  DSN is configured, its second is the follower's, again with the empty driver. A
  failure of either is the outcome of that goroutine, and with all collaborators
  succeeding the handle is installed. For \<^verbatim>\<open>New\<close>: when \<^verbatim>\<open>DBConfig.SetDefault\<close>
  succeeds, the registry is returned, the goroutine's failure is in \<^verbatim>\<open>errs\<close>, and its
  handle, if it made one, is in the registry.
\<close>

theorem New_empty_driver:
  assumes "Driver c = []"
  shows "(\<forall>err. ConnConfig_SetDefault env (LeaderConnConfig c) dbConfig = Inl err \<longrightarrow>
            filter is_Connect (fst (sqldbUnit env dbConfig c)) = []) \<and>
         (\<forall>leaderConf. ConnConfig_SetDefault env (LeaderConnConfig c) dbConfig = Inr leaderConf \<longrightarrow>
            hd (filter is_Connect (fst (sqldbUnit env dbConfig c))) =
              EvConnect [] (DSN leaderConf) (connectOptions leaderConf) \<and>
            (\<forall>err. sqldb_Connect env [] (DSN leaderConf) (connectOptions leaderConf) = Inl err \<longrightarrow>
               snd (sqldbUnit env dbConfig c) = Failed err) \<and>
            (\<forall>leaderDB. sqldb_Connect env [] (DSN leaderConf) (connectOptions leaderConf) =
                 Inr leaderDB \<longrightarrow>
               (DSN (ReplicaConnConfig c) = [] \<longrightarrow>
                  filter is_Connect (fst (sqldbUnit env dbConfig c)) =
                    [EvConnect [] (DSN leaderConf) (connectOptions leaderConf)] \<and>
                  (sqldb_Wrap env leaderDB leaderDB = None \<longrightarrow>
                     snd (sqldbUnit env dbConfig c) =
                       InstallDB (sqldb_Name c) \<lparr>leader = leaderDB, follower = leaderDB\<rparr>)) \<and>
               (DSN (ReplicaConnConfig c) \<noteq> [] \<longrightarrow>
                  filter is_Connect (fst (sqldbUnit env dbConfig c)) =
                    [EvConnect [] (DSN leaderConf) (connectOptions leaderConf),
                     EvConnect [] (DSN (ReplicaConnConfig c))
                       (connectOptions (ReplicaConnConfig c))] \<and>
                  (\<forall>err. sqldb_Connect env [] (DSN (ReplicaConnConfig c))
                       (connectOptions (ReplicaConnConfig c)) = Inl err \<longrightarrow>
                     snd (sqldbUnit env dbConfig c) = Failed err)))) \<and>
         (DBConfig_SetDefault env (cfg_DBConfig kothakConfig) = Inr dbConfig \<longrightarrow>
          is_schedule sched (length (units (defaulted kothakConfig dbConfig))) \<longrightarrow>
          c \<in> set (SQLDBs dbConfig) \<longrightarrow>
          fst (New env kothakConfig lg sched) \<noteq> None \<and>
          (\<forall>err. snd (sqldbUnit env dbConfig c) = Failed err \<longrightarrow>
             err \<in> set (NewErrs env kothakConfig lg sched)) \<and>
          (\<forall>h. snd (sqldbUnit env dbConfig c) = InstallDB (sqldb_Name c) h \<longrightarrow>
             (\<exists>k. fst (New env kothakConfig lg sched) = Some k \<and>
                  dbs k (sqldb_Name c) \<noteq> None)))"
proof -
  note a = sqldbUnit_empty_driver [OF assms, of env dbConfig]
  have b: "DBConfig_SetDefault env (cfg_DBConfig kothakConfig) = Inr dbConfig \<longrightarrow>
          is_schedule sched (length (units (defaulted kothakConfig dbConfig))) \<longrightarrow>
          c \<in> set (SQLDBs dbConfig) \<longrightarrow>
          fst (New env kothakConfig lg sched) \<noteq> None \<and>
          (\<forall>err. snd (sqldbUnit env dbConfig c) = Failed err \<longrightarrow>
             err \<in> set (NewErrs env kothakConfig lg sched)) \<and>
          (\<forall>h. snd (sqldbUnit env dbConfig c) = InstallDB (sqldb_Name c) h \<longrightarrow>
             (\<exists>k. fst (New env kothakConfig lg sched) = Some k \<and>
                  dbs k (sqldb_Name c) \<noteq> None))"
    by (intro impI) (rule New_unit_not_rejected)
  show ?thesis
    using a [THEN conjunct1] a [THEN conjunct2] b by - (intro conjI, assumption+)
qed

text \<open>
  The theorem at \<open>db_main\<close>, whose driver is empty, with a \<^verbatim>\<open>Connect\<close> that refuses
  it.
\<close>

theorem New_empty_driver_witness:
  "Driver db_main = [] \<and>
   ConnConfig_SetDefault env_db_down (LeaderConnConfig db_main) (cfg_DBConfig cfg_cache_and_db) =
     Inr (conn ''leader-dsn'') \<and>
   sqldb_Connect env_db_down [] (DSN (conn ''leader-dsn'')) (connectOptions (conn ''leader-dsn'')) =
     Inl ''unknown driver'' \<and>
   DBConfig_SetDefault env_db_down (cfg_DBConfig cfg_cache_and_db) =
     Inr (cfg_DBConfig cfg_cache_and_db) \<and>
   is_schedule [1, 0] (length (units cfg_cache_and_db)) \<and>
   db_main \<in> set (SQLDBs (cfg_DBConfig cfg_cache_and_db)) \<and>
   hd (filter is_Connect (fst (sqldbUnit env_db_down (cfg_DBConfig cfg_cache_and_db) db_main))) =
     EvConnect [] ''leader-dsn'' (connectOptions (conn ''leader-dsn'')) \<and>
   snd (sqldbUnit env_db_down (cfg_DBConfig cfg_cache_and_db) db_main) = Failed ''unknown driver'' \<and>
   fst (New env_db_down cfg_cache_and_db stdLogger [1, 0]) \<noteq> None \<and>
   ''unknown driver'' \<in> set (NewErrs env_db_down cfg_cache_and_db stdLogger [1, 0])"
proof -
  let ?dc = "cfg_DBConfig cfg_cache_and_db"
  have dr: "Driver db_main = []" by (simp add: db_main_def)
  have l: "ConnConfig_SetDefault env_db_down (LeaderConnConfig db_main) ?dc = Inr (conn ''leader-dsn'')"
    by (simp add: env_db_down_simps db_main_def)
  have cn: "sqldb_Connect env_db_down [] (DSN (conn ''leader-dsn''))
      (connectOptions (conn ''leader-dsn'')) = Inl ''unknown driver''"
    by (rule env_db_down_simps)
  have d: "DBConfig_SetDefault env_db_down ?dc = Inr ?dc"
    by (rule env_db_down_simps)
  have s: "is_schedule [1, 0] (length (units cfg_cache_and_db))"
    unfolding units_cfg_cache_and_db is_schedule_def by code_simp
  have s': "is_schedule [1, 0] (length (units (defaulted cfg_cache_and_db ?dc)))"
    using s by (simp only: defaulted_same)
  have c: "db_main \<in> set (SQLDBs ?dc)"
    by (simp add: cfg_cache_and_db_def)
  note t = New_empty_driver [OF dr, of env_db_down ?dc cfg_cache_and_db "[1, 0]" stdLogger]
  from t have "\<forall>leaderConf. ConnConfig_SetDefault env_db_down (LeaderConnConfig db_main) ?dc =
        Inr leaderConf \<longrightarrow>
      hd (filter is_Connect (fst (sqldbUnit env_db_down ?dc db_main))) =
        EvConnect [] (DSN leaderConf) (connectOptions leaderConf) \<and>
      (\<forall>err. sqldb_Connect env_db_down [] (DSN leaderConf) (connectOptions leaderConf) = Inl err \<longrightarrow>
         snd (sqldbUnit env_db_down ?dc db_main) = Failed err)"
    by blast
  from this [rule_format, OF l]
  have h: "hd (filter is_Connect (fst (sqldbUnit env_db_down ?dc db_main))) =
        EvConnect [] (DSN (conn ''leader-dsn'')) (connectOptions (conn ''leader-dsn''))"
    and f: "\<forall>err. sqldb_Connect env_db_down [] (DSN (conn ''leader-dsn''))
          (connectOptions (conn ''leader-dsn'')) = Inl err \<longrightarrow>
         snd (sqldbUnit env_db_down ?dc db_main) = Failed err"
    by blast+
  from f cn have o: "snd (sqldbUnit env_db_down ?dc db_main) = Failed ''unknown driver''"
    by blast
  have h': "hd (filter is_Connect (fst (sqldbUnit env_db_down ?dc db_main))) =
     EvConnect [] ''leader-dsn'' (connectOptions (conn ''leader-dsn''))"
    using h by (simp add: conn_def)
  from t d s' c have "fst (New env_db_down cfg_cache_and_db stdLogger [1, 0]) \<noteq> None \<and>
      (\<forall>err. snd (sqldbUnit env_db_down ?dc db_main) = Failed err \<longrightarrow>
         err \<in> set (NewErrs env_db_down cfg_cache_and_db stdLogger [1, 0]))"
    by blast
  with o have n: "fst (New env_db_down cfg_cache_and_db stdLogger [1, 0]) \<noteq> None"
    and e: "''unknown driver'' \<in> set (NewErrs env_db_down cfg_cache_and_db stdLogger [1, 0])"
    by blast+
  from dr l cn d s c h' o n e show ?thesis by (intro conjI)
qed

subsection \<open>C10: the registry after CloseAll\<close>

text \<open>
  C10. \<^verbatim>\<open>CloseAll\<close> leaves the registry as it was: every name bound before is bound
  to the same handle after, and the fallible accessors return it with a nil error. A
  second \<^verbatim>\<open>CloseAll\<close>, whatever the closers do this time and in whatever order the maps
  are visited, calls \<^verbatim>\<open>Close\<close> on every handle again, once for each registered name.
\<close>

theorem CloseAll_leaves_registry:
  "snd (snd (CloseAll cl it k)) = k \<and>
   (\<forall>name h. objStorages k name = Some h \<longrightarrow>
      fst (GetObjectStorage (snd (snd (CloseAll cl it k))) name) = (Some h, None)) \<and>
   (\<forall>name h. dbs k name = Some h \<longrightarrow>
      fst (GetSQLDB (snd (snd (CloseAll cl it k))) name) = (Some h, None)) \<and>
   (\<forall>name h. rds k name = Some h \<longrightarrow>
      fst (GetRedis (snd (snd (CloseAll cl it k))) name) = (Some h, None)) \<and>
   (is_iteration it' k \<longrightarrow>
      fst (CloseAll cl' it' (snd (snd (CloseAll cl it k)))) =
        map (\<lambda>n. CloseObjStorage (the (objStorages k n))
                    (Storage_Close cl' (the (objStorages k n)))) (objStorages_order it') @
        map (\<lambda>n. CloseDB (the (dbs k n)) (DB_Close cl' (the (dbs k n)))) (dbs_order it') @
        map (\<lambda>n. CloseRedis (the (rds k n)) (Redis_Close cl' (the (rds k n)))) (rds_order it') \<and>
      length (fst (CloseAll cl' it' (snd (snd (CloseAll cl it k))))) =
        card (dom (objStorages k)) + card (dom (dbs k)) + card (dom (rds k)))"
proof -
  have k: "snd (snd (CloseAll cl it k)) = k" by (simp add: CloseAll_def)
  have g: "\<forall>name h. objStorages k name = Some h \<longrightarrow> fst (GetObjectStorage k name) = (Some h, None)"
    "\<forall>name h. dbs k name = Some h \<longrightarrow> fst (GetSQLDB k name) = (Some h, None)"
    "\<forall>name h. rds k name = Some h \<longrightarrow> fst (GetRedis k name) = (Some h, None)"
    by (simp_all add: GetObjectStorage_def GetSQLDB_def GetRedis_def)
  have again: "fst (CloseAll cl' it' k) =
        map (\<lambda>n. CloseObjStorage (the (objStorages k n))
                    (Storage_Close cl' (the (objStorages k n)))) (objStorages_order it') @
        map (\<lambda>n. CloseDB (the (dbs k n)) (DB_Close cl' (the (dbs k n)))) (dbs_order it') @
        map (\<lambda>n. CloseRedis (the (rds k n)) (Redis_Close cl' (the (rds k n)))) (rds_order it') \<and>
      length (fst (CloseAll cl' it' k)) =
        card (dom (objStorages k)) + card (dom (dbs k)) + card (dom (rds k))"
    if i: "is_iteration it' k"
  proof -
    from i have o: "enumerates (objStorages_order it') (objStorages k)"
      and d: "enumerates (dbs_order it') (dbs k)"
      and r: "enumerates (rds_order it') (rds k)"
      by (simp_all add: is_iteration_def)
    show ?thesis
      by (simp add: CloseAll_def rangeMap_enumerates [OF o] rangeMap_enumerates [OF d]
          rangeMap_enumerates [OF r] comp_def length_enumerates [OF o] length_enumerates [OF d]
          length_enumerates [OF r])
  qed
  from k g again show ?thesis by (simp only: k) blast
qed

text \<open>The theorem at \<open>registry_six\<close>: the second call closes six handles again.\<close>

theorem CloseAll_leaves_registry_witness:
  "is_iteration iteration_six registry_six \<and>
   snd (snd (CloseAll closers_failing iteration_six registry_six)) = registry_six \<and>
   dbs registry_six ''orders'' = Some \<lparr>leader = 5, follower = 6\<rparr> \<and>
   fst (GetSQLDB (snd (snd (CloseAll closers_failing iteration_six registry_six))) ''orders'') =
     (Some \<lparr>leader = 5, follower = 6\<rparr>, None) \<and>
   length (fst (CloseAll closers_failing iteration_six
      (snd (snd (CloseAll closers_failing iteration_six registry_six))))) = 6"
proof -
  let ?k' = "snd (snd (CloseAll closers_failing iteration_six registry_six))"
  note t = CloseAll_leaves_registry [of closers_failing iteration_six registry_six iteration_six
      closers_failing]
  have h: "dbs registry_six ''orders'' = Some \<lparr>leader = 5, follower = 6\<rparr>"
    by (simp add: registry_six_def)
  have c: "card (dom (objStorages registry_six)) + card (dom (dbs registry_six)) +
           card (dom (rds registry_six)) = 6"
    by (simp add: registry_six_def)
  from t have k: "?k' = registry_six"
    by (elim conjE)
  from t have "\<forall>name h. dbs registry_six name = Some h \<longrightarrow>
      fst (GetSQLDB ?k' name) = (Some h, None)"
    by (elim conjE)
  from this [rule_format, OF h]
  have g: "fst (GetSQLDB ?k' ''orders'') = (Some \<lparr>leader = 5, follower = 6\<rparr>, None)" .
  from t have "is_iteration iteration_six registry_six \<longrightarrow>
      fst (CloseAll closers_failing iteration_six ?k') =
        map (\<lambda>n. CloseObjStorage (the (objStorages registry_six n))
                    (Storage_Close closers_failing (the (objStorages registry_six n))))
          (objStorages_order iteration_six) @
        map (\<lambda>n. CloseDB (the (dbs registry_six n)) (DB_Close closers_failing (the (dbs registry_six n))))
          (dbs_order iteration_six) @
        map (\<lambda>n. CloseRedis (the (rds registry_six n))
                    (Redis_Close closers_failing (the (rds registry_six n))))
          (rds_order iteration_six) \<and>
      length (fst (CloseAll closers_failing iteration_six ?k')) =
        card (dom (objStorages registry_six)) + card (dom (dbs registry_six)) +
        card (dom (rds registry_six))"
    by (elim conjE)
  from this [THEN mp, OF is_iteration_six, THEN conjunct2]
  have l: "length (fst (CloseAll closers_failing iteration_six ?k')) = 6"
    by (simp only: c)
  from is_iteration_six k h g l show ?thesis by (intro conjI)
qed

end
